theory Spec2Isabelle
  imports Complex_Main "HOL-Library.Char_ord" "HOL-Library.List_Lexorder"
    "HOL-Library.Product_Lexorder"
begin

section \<open>Numbers of the observation table\<close>

text \<open>
  A cell of a float64 column is either not-a-number or a number. Numbers are taken as
  mathematical reals: rounding error, overflow and the infinities of IEEE arithmetic are
  outside this model, the propagation of not-a-number is inside it.
\<close>

datatype fl = NaN | Fin real

fun isnan :: "fl \<Rightarrow> bool" where
  "isnan NaN = True"
| "isnan (Fin x) = False"

fun fl_map :: "(real \<Rightarrow> real) \<Rightarrow> fl \<Rightarrow> fl" where
  "fl_map f NaN = NaN"
| "fl_map f (Fin x) = Fin (f x)"

fun fl_map2 :: "(real \<Rightarrow> real \<Rightarrow> real) \<Rightarrow> fl \<Rightarrow> fl \<Rightarrow> fl" where
  "fl_map2 f (Fin x) (Fin y) = Fin (f x y)"
| "fl_map2 f a b = NaN"

definition deg2rad :: "fl \<Rightarrow> fl" where
  "deg2rad = fl_map (\<lambda>x. x * (pi / 180))"

definition np_sin :: "fl \<Rightarrow> fl" where
  "np_sin = fl_map sin"

definition np_cos :: "fl \<Rightarrow> fl" where
  "np_cos = fl_map cos"

definition np_abs :: "fl \<Rightarrow> fl" where
  "np_abs = fl_map abs"

definition fl_sub :: "fl \<Rightarrow> fl \<Rightarrow> fl" where
  "fl_sub = fl_map2 (\<lambda>x y. x - y)"

definition fl_mul :: "fl \<Rightarrow> fl \<Rightarrow> fl" where
  "fl_mul = fl_map2 (\<lambda>x y. x * y)"

definition fl_add :: "fl \<Rightarrow> fl \<Rightarrow> fl" where
  "fl_add = fl_map2 (\<lambda>x y. x + y)"

text \<open>Division is only ever reached behind a test that the divisor is a non-zero number.\<close>

definition fl_div :: "fl \<Rightarrow> fl \<Rightarrow> fl" where
  "fl_div = fl_map2 (\<lambda>x y. x / y)"

text \<open>\<open>np.sqrt\<close> of a negative number is not-a-number.\<close>

fun np_sqrt :: "fl \<Rightarrow> fl" where
  "np_sqrt NaN = NaN"
| "np_sqrt (Fin x) = (if x < 0 then NaN else Fin (sqrt x))"

text \<open>
  \<open>np.log\<close> of a negative number is not-a-number; \<open>np.log(0)\<close> is minus infinity, which
  this model has no value for: it is mapped to not-a-number, and \<open>circular_std\<close> never
  reaches it because of the clip.
\<close>

fun np_log :: "fl \<Rightarrow> fl" where
  "np_log NaN = NaN"
| "np_log (Fin x) = (if x \<le> 0 then NaN else Fin (ln x))"

definition np_clip :: "fl \<Rightarrow> real \<Rightarrow> real \<Rightarrow> fl" where
  "np_clip a lo hi = fl_map (\<lambda>x. min (max x lo) hi) a"

text \<open>\<open>np.arctan2(y, x)\<close> on numbers, with values in \<open>(-pi, pi]\<close>.\<close>

definition atan2 :: "real \<Rightarrow> real \<Rightarrow> real" where
  "atan2 y x =
     (if 0 < x then arctan (y / x)
      else if x < 0 \<and> 0 \<le> y then arctan (y / x) + pi
      else if x < 0 then arctan (y / x) - pi
      else if 0 < y then pi / 2
      else if y < 0 then - (pi / 2)
      else 0)"

definition np_arctan2 :: "fl \<Rightarrow> fl \<Rightarrow> fl" where
  "np_arctan2 = fl_map2 atan2"

text \<open>The numbers of an array, its not-a-number cells dropped.\<close>

fun finite_vals :: "fl list \<Rightarrow> real list" where
  "finite_vals [] = []"
| "finite_vals (NaN # xs) = finite_vals xs"
| "finite_vals (Fin x # xs) = x # finite_vals xs"

definition mean :: "real list \<Rightarrow> real" where
  "mean vs = sum_list vs / real (length vs)"

text \<open>\<open>np.nanmean\<close>: the mean of the numbers; not-a-number when there is none.\<close>

definition nanmean :: "fl list \<Rightarrow> fl" where
  "nanmean xs = (let vs = finite_vals xs in if vs = [] then NaN else Fin (mean vs))"

text \<open>\<open>np.nanstd\<close>: the population standard deviation (ddof = 0) of the numbers.\<close>

definition nanstd :: "fl list \<Rightarrow> fl" where
  "nanstd xs =
     (let vs = finite_vals xs in
      if vs = [] then NaN
      else Fin (sqrt (mean (map (\<lambda>v. (v - mean vs)\<^sup>2) vs))))"

text \<open>\<open>np.rint\<close>: to the nearest integer, a tie to the even one.\<close>

definition rint :: "real \<Rightarrow> int" where
  "rint x =
     (let f = \<lfloor>x\<rfloor>; d = x - of_int f in
      if d < 1 / 2 then f
      else if 1 / 2 < d then f + 1
      else if even f then f else f + 1)"

text \<open>\<open>np.round(x, decimals)\<close>: scale, round to the nearest integer, scale back.\<close>

definition np_round :: "fl \<Rightarrow> nat \<Rightarrow> fl" where
  "np_round a decimals = fl_map (\<lambda>x. of_int (rint (x * 10 ^ decimals)) / 10 ^ decimals) a"

text \<open>A comparison with not-a-number is false.\<close>

fun fl_gt :: "fl \<Rightarrow> real \<Rightarrow> bool" where
  "fl_gt NaN t = False"
| "fl_gt (Fin x) t = (t < x)"

section \<open>Circular statistics\<close>

definition circular_mean :: "fl list \<Rightarrow> fl" where
  "circular_mean a = np_arctan2 (nanmean (map np_sin a)) (nanmean (map np_cos a))"

definition circular_std :: "fl list \<Rightarrow> fl" where
  "circular_std a =
     (let s = nanmean (map np_sin a);
          c = nanmean (map np_cos a);
          R = np_sqrt (fl_add (fl_mul s s) (fl_mul c c))
      in np_sqrt (fl_mul (Fin (- 2)) (np_log (np_clip R (1 / 10 ^ 12) 1))))"

section \<open>The observation table\<close>

text \<open>
  A record of the input table: the two source-image identifiers, the start position in
  projected meters, the displacement components, the distance travelled and the bearing.
\<close>

record drift =
  File1 :: string
  File2 :: string
  X1 :: real
  Y1 :: real
  dx :: fl
  dy :: fl
  total_distance_km :: fl
  Bear_deg :: fl

text \<open>A row of \<open>out_df\<close>: the input columns and the columns \<open>outlier_search\<close> adds.\<close>

record obs = drift +
  bearing_rad :: fl
  b_sin :: fl
  b_cos :: fl
  outlier_category :: string
  neighbor_indices :: "nat list option"
  neighbor_count :: int
  distance_z_score :: fl
  bearing_z_score :: fl
  scene :: nat

text \<open>The plot data appended once per round: positions and displacements of the pool.\<close>

record payload =
  pX :: "real list"
  pY :: "real list"
  pu :: "fl list"
  pv :: "fl list"

subsection \<open>Sorting and scene numbering\<close>

definition scene_key :: "'a drift_scheme \<Rightarrow> string \<times> string" where
  "scene_key r = (File1 r, File2 r)"

text \<open>The distinct values of a list in the order of their first occurrence.\<close>

fun uniq :: "'a list \<Rightarrow> 'a list" where
  "uniq [] = []"
| "uniq (x # xs) = x # filter (\<lambda>y. y \<noteq> x) (uniq xs)"

fun index_of :: "'a \<Rightarrow> 'a list \<Rightarrow> nat" where
  "index_of k [] = 0"
| "index_of k (x # xs) = (if x = k then 0 else Suc (index_of k xs))"

text \<open>\<open>groupby(keys, sort=False).ngroup()\<close>: groups are numbered as they are first seen.\<close>

definition ngroup :: "'k list \<Rightarrow> nat list" where
  "ngroup ks = map (\<lambda>k. index_of k (uniq ks)) ks"

definition add_columns :: "drift \<Rightarrow> nat \<Rightarrow> obs" where
  "add_columns d g =
     drift.extend d
       (obs.fields (deg2rad (Bear_deg d))
          (np_sin (deg2rad (Bear_deg d)))
          (np_cos (deg2rad (Bear_deg d)))
          ''01'' None 0 NaN NaN g)"

text \<open>
  The table before the first round: the input sorted by \<open>(File1, File2)\<close> (a sort on
  several columns is stable), re-indexed, the new columns at their defaults, and the scene
  number of each row.
\<close>

definition init_table :: "drift list \<Rightarrow> obs list" where
  "init_table df =
     (let sorted_df = sort_key scene_key df;
          groups = ngroup (map scene_key sorted_df)
      in map (\<lambda>(d, g). add_columns d (g + 1)) (zip sorted_df groups))"

subsection \<open>The pool and the stop test\<close>

text \<open>The rows of \<open>pool_df\<close>, each with its index in \<open>out_df\<close>.\<close>

definition pool_df :: "obs list \<Rightarrow> (nat \<times> obs) list" where
  "pool_df out_df =
     filter (\<lambda>(i, r). outlier_category r \<in> set [''00'', ''01'']) (enumerate 0 out_df)"

definition inlier_count :: "obs list \<Rightarrow> nat" where
  "inlier_count out_df = length (filter (\<lambda>r. outlier_category r = ''01'') out_df)"

definition quiver_payload :: "(nat \<times> obs) list \<Rightarrow> payload" where
  "quiver_payload pool =
     \<lparr>pX = map (\<lambda>(i, r). X1 r) pool, pY = map (\<lambda>(i, r). Y1 r) pool,
      pu = map (\<lambda>(i, r). dx r) pool, pv = map (\<lambda>(i, r). dy r) pool\<rparr>"

subsection \<open>Neighbours and their statistics\<close>

text \<open>\<open>pool_df.groupby("scene", sort=False)\<close>: the scenes as first seen, each with its rows.\<close>

definition groupby_scene :: "(nat \<times> obs) list \<Rightarrow> (nat \<times> (nat \<times> obs) list) list" where
  "groupby_scene pool =
     map (\<lambda>g. (g, filter (\<lambda>(i, r). scene r = g) pool)) (uniq (map (\<lambda>(i, r). scene r) pool))"

definition euclid :: "real \<times> real \<Rightarrow> real \<times> real \<Rightarrow> real" where
  "euclid p q = sqrt ((fst p - fst q)\<^sup>2 + (snd p - snd q)\<^sup>2)"

text \<open>
  \<open>cKDTree(xy).query_ball_point(xy, r)\<close> is library code, taken by its documented
  contract: for each point the indices of all points of \<open>xy\<close> within distance \<open>r\<close>, in
  increasing order (a query for several points returns sorted lists).
\<close>

definition query_ball_point :: "(real \<times> real) list \<Rightarrow> real \<Rightarrow> nat list list" where
  "query_ball_point xy r = map (\<lambda>p. filter (\<lambda>j. euclid (xy ! j) p \<le> r) [0..<length xy]) xy"

text \<open>The body of the loop over the points of one scene; it writes one row of \<open>out_df\<close>.\<close>

definition process_point ::
  "(nat \<times> obs) list \<Rightarrow> nat list list \<Rightarrow> obs list \<Rightarrow> nat \<Rightarrow> obs list" where
  "process_point scene_df all_neighbors out_df local_idx =
     (let local_neighbors = all_neighbors ! local_idx;
          neigh_idxs = filter (\<lambda>j. j \<noteq> local_idx) local_neighbors;
          target_out_idx = fst (scene_df ! local_idx)
      in if length neigh_idxs = 0 then
           out_df[target_out_idx := (out_df ! target_out_idx)
             \<lparr>neighbor_indices := None, neighbor_count := 0,
              distance_z_score := NaN, bearing_z_score := NaN\<rparr>]
         else
           let neigh_rows = map (\<lambda>j. snd (scene_df ! j)) neigh_idxs;
               neigh_dist = map total_distance_km neigh_rows;
               neigh_bear = map bearing_rad neigh_rows;
               dist_mean = nanmean neigh_dist;
               dist_std = nanstd neigh_dist;
               bear_mean = circular_mean neigh_bear;
               bear_std = circular_std neigh_bear;
               cell_dist = total_distance_km (snd (scene_df ! local_idx));
               cell_bear = bearing_rad (snd (scene_df ! local_idx));
               dist_z_score =
                 (if dist_std = Fin 0 \<or> isnan dist_std then NaN
                  else fl_div (np_abs (fl_sub cell_dist dist_mean)) dist_std);
               delta_bear =
                 np_arctan2 (np_sin (fl_sub cell_bear bear_mean))
                   (np_cos (fl_sub cell_bear bear_mean));
               bear_z_score =
                 (if bear_std = Fin 0 \<or> isnan bear_std then NaN
                  else fl_div (np_abs delta_bear) bear_std);
               neigh_out_idx =
                 filter (\<lambda>i. i \<noteq> target_out_idx) (map (\<lambda>j. fst (scene_df ! j)) neigh_idxs)
           in out_df[target_out_idx := (out_df ! target_out_idx)
                \<lparr>neighbor_indices := Some neigh_out_idx,
                 neighbor_count := int (length neigh_out_idx),
                 distance_z_score := np_round dist_z_score 3,
                 bearing_z_score := np_round bear_z_score 3\<rparr>])"

definition process_scene :: "real \<Rightarrow> obs list \<Rightarrow> nat \<times> (nat \<times> obs) list \<Rightarrow> obs list" where
  "process_scene radius_m out_df grp =
     (let scene_df = snd grp;
          xy = map (\<lambda>(i, r). (X1 r, Y1 r)) scene_df
      in if length xy = 0 then out_df
         else let all_neighbors = query_ball_point xy radius_m
              in foldl (process_point scene_df all_neighbors) out_df
                   [0..<length all_neighbors])"

definition build_neighbors :: "real \<Rightarrow> obs list \<Rightarrow> obs list" where
  "build_neighbors radius_m out_df =
     foldl (process_scene radius_m) out_df (groupby_scene (pool_df out_df))"

subsection \<open>The category\<close>

definition base_cat :: "obs \<Rightarrow> nat" where
  "base_cat r =
     (let distance_filter = fl_gt (distance_z_score r) 3;
          bearing_filter = fl_gt (bearing_z_score r) 3
      in if distance_filter \<and> \<not> bearing_filter then 1
         else if \<not> distance_filter \<and> bearing_filter then 2
         else if distance_filter \<and> bearing_filter then 3
         else 0)"

definition statistical_confidence_flag :: "int \<Rightarrow> obs \<Rightarrow> nat" where
  "statistical_confidence_flag min_neighbors r =
     (if min_neighbors \<le> neighbor_count r then 1 else 0)"

text \<open>\<open>astype(str)\<close> on the one-digit values that occur.\<close>

definition astype_str :: "nat \<Rightarrow> string" where
  "astype_str n =
     (if n = 0 then ''0'' else if n = 1 then ''1'' else if n = 2 then ''2'' else ''3'')"

definition assign_category :: "int \<Rightarrow> obs list \<Rightarrow> obs list" where
  "assign_category min_neighbors out_df =
     map (\<lambda>r. r\<lparr>outlier_category :=
                 astype_str (base_cat r) @
                 astype_str (statistical_confidence_flag min_neighbors r)\<rparr>) out_df"

subsection \<open>The loop\<close>

text \<open>One round that does not stop: neighbours and statistics of the pool, then categories.\<close>

definition iteration :: "real \<Rightarrow> int \<Rightarrow> obs list \<Rightarrow> obs list" where
  "iteration radius_m min_neighbors out_df =
     assign_category min_neighbors (build_neighbors radius_m out_df)"

text \<open>
  \<open>for iter_idx in range(iter_count)\<close>, with the rounds left as first argument and
  \<open>iter_prev_inliers\<close> as \<open>prev\<close>.
\<close>

fun outlier_loop ::
  "nat \<Rightarrow> real \<Rightarrow> int \<Rightarrow> nat option \<Rightarrow> obs list \<Rightarrow> payload list \<Rightarrow> obs list \<times> payload list" where
  "outlier_loop 0 radius_m min_neighbors prev out_df payloads = (out_df, payloads)"
| "outlier_loop (Suc n) radius_m min_neighbors prev out_df payloads =
     (let pool = pool_df out_df;
          cnt = inlier_count out_df;
          payloads' = payloads @ [quiver_payload pool]
      in if prev \<noteq> None \<and> Some cnt = prev then (out_df, payloads')
         else outlier_loop n radius_m min_neighbors (Some cnt)
                (iteration radius_m min_neighbors out_df) payloads')"

text \<open>
  \<open>outlier_search(df, config, outlier_type, radius_km, min_neighbors, iter_count)\<close>.
  \<open>config\<close> only names the directory of a file written on the way and \<open>outlier_type\<close>
  is not read; both are left out.
\<close>

definition outlier_search :: "drift list \<Rightarrow> real \<Rightarrow> int \<Rightarrow> nat \<Rightarrow> obs list \<times> payload list" where
  "outlier_search df radius_km min_neighbors iter_count =
     (let radius_m = radius_km * 1000
      in outlier_loop iter_count radius_m min_neighbors None (init_table df) [])"

section \<open>Derived notions used in the statements\<close>

text \<open>A row is in the pool when its category is \<open>00\<close> or \<open>01\<close>, the reason-0 categories.\<close>

definition in_pool :: "obs \<Rightarrow> bool" where
  "in_pool r \<longleftrightarrow> outlier_category r = ''00'' \<or> outlier_category r = ''01''"

text \<open>The indices of the pool, and those of the pool rows of one scene, in table order.\<close>

definition pool_idx :: "obs list \<Rightarrow> nat list" where
  "pool_idx s = filter (\<lambda>i. in_pool (s ! i)) [0..<length s]"

definition scene_idx :: "obs list \<Rightarrow> nat \<Rightarrow> nat list" where
  "scene_idx s g = filter (\<lambda>i. in_pool (s ! i) \<and> scene (s ! i) = g) [0..<length s]"

text \<open>The start position of a row.\<close>

definition pos :: "obs \<Rightarrow> real \<times> real" where
  "pos r = (X1 r, Y1 r)"

text \<open>
  The neighbours of row \<open>i\<close> said directly: the other rows of the pool with the scene of
  row \<open>i\<close> whose start position is within the radius of that of row \<open>i\<close>.
\<close>

definition neighbors_spec :: "real \<Rightarrow> obs list \<Rightarrow> nat \<Rightarrow> nat list" where
  "neighbors_spec radius s i =
     filter (\<lambda>j. in_pool (s ! j) \<and> scene (s ! j) = scene (s ! i) \<and> j \<noteq> i \<and>
                 euclid (pos (s ! j)) (pos (s ! i)) \<le> radius) [0..<length s]"

text \<open>
  The two z-scores of row \<open>i\<close> against the rows \<open>nb\<close>, before rounding, and the row
  that a round writes for a member of the pool.
\<close>

definition dist_z :: "obs list \<Rightarrow> nat \<Rightarrow> nat list \<Rightarrow> fl" where
  "dist_z s i nb =
     (let neigh_dist = map (\<lambda>j. total_distance_km (s ! j)) nb;
          dist_mean = nanmean neigh_dist;
          dist_std = nanstd neigh_dist
      in if dist_std = Fin 0 \<or> isnan dist_std then NaN
         else fl_div (np_abs (fl_sub (total_distance_km (s ! i)) dist_mean)) dist_std)"

definition bear_z :: "obs list \<Rightarrow> nat \<Rightarrow> nat list \<Rightarrow> fl" where
  "bear_z s i nb =
     (let neigh_bear = map (\<lambda>j. bearing_rad (s ! j)) nb;
          bear_mean = circular_mean neigh_bear;
          bear_std = circular_std neigh_bear;
          delta_bear =
            np_arctan2 (np_sin (fl_sub (bearing_rad (s ! i)) bear_mean))
              (np_cos (fl_sub (bearing_rad (s ! i)) bear_mean))
      in if bear_std = Fin 0 \<or> isnan bear_std then NaN
         else fl_div (np_abs delta_bear) bear_std)"

definition write_point :: "real \<Rightarrow> obs list \<Rightarrow> nat \<Rightarrow> obs \<Rightarrow> obs" where
  "write_point radius s i r =
     (let nb = neighbors_spec radius s i
      in if nb = [] then
           r\<lparr>neighbor_indices := None, neighbor_count := 0,
             distance_z_score := NaN, bearing_z_score := NaN\<rparr>
         else
           r\<lparr>neighbor_indices := Some nb, neighbor_count := int (length nb),
             distance_z_score := np_round (dist_z s i nb) 3,
             bearing_z_score := np_round (bear_z s i nb) 3\<rparr>)"

text \<open>What the classifier does to one row.\<close>

definition categorize :: "int \<Rightarrow> obs \<Rightarrow> obs" where
  "categorize min_neighbors r =
     r\<lparr>outlier_category :=
         astype_str (base_cat r) @ astype_str (statistical_confidence_flag min_neighbors r)\<rparr>"

text \<open>
  The tables at the head of each round that \<open>outlier_loop\<close> enters, the last one being
  the table it returns: the same recursion, keeping the tables instead of the plot data.
\<close>

fun loop_states :: "nat \<Rightarrow> real \<Rightarrow> int \<Rightarrow> nat option \<Rightarrow> obs list \<Rightarrow> obs list list" where
  "loop_states 0 radius_m min_neighbors prev out_df = [out_df]"
| "loop_states (Suc n) radius_m min_neighbors prev out_df =
     (let cnt = inlier_count out_df
      in if prev \<noteq> None \<and> Some cnt = prev then [out_df]
         else out_df # loop_states n radius_m min_neighbors (Some cnt)
                         (iteration radius_m min_neighbors out_df))"

definition search_states :: "drift list \<Rightarrow> real \<Rightarrow> int \<Rightarrow> nat \<Rightarrow> obs list list" where
  "search_states df radius_km min_neighbors iter_count =
     loop_states iter_count (radius_km * 1000) min_neighbors None (init_table df)"

text \<open>The classifier in the words of the design: flags, reason, confidence, code.\<close>

definition distance_flag :: "obs \<Rightarrow> bool" where
  "distance_flag r = (case distance_z_score r of NaN \<Rightarrow> False | Fin z \<Rightarrow> 3 < z)"

definition bearing_flag :: "obs \<Rightarrow> bool" where
  "bearing_flag r = (case bearing_z_score r of NaN \<Rightarrow> False | Fin z \<Rightarrow> 3 < z)"

definition reason_spec :: "obs \<Rightarrow> nat" where
  "reason_spec r =
     (if distance_flag r \<and> bearing_flag r then 3
      else if distance_flag r then 1
      else if bearing_flag r then 2
      else 0)"

definition confidence_spec :: "int \<Rightarrow> obs \<Rightarrow> nat" where
  "confidence_spec min_neighbors r = (if neighbor_count r \<ge> min_neighbors then 1 else 0)"

definition str_digit :: "nat \<Rightarrow> string" where
  "str_digit n = [''0123456789'' ! n]"

text \<open>The recorded neighbour list of a row, an unset cell read as no neighbours.\<close>

definition nb_list :: "obs \<Rightarrow> nat list" where
  "nb_list r = (case neighbor_indices r of None \<Rightarrow> [] | Some ns \<Rightarrow> ns)"

text \<open>Tables on which the theorems below are instantiated.\<close>

definition mk_drift :: "string \<Rightarrow> string \<Rightarrow> real \<Rightarrow> real \<Rightarrow> real \<Rightarrow> real \<Rightarrow> drift" where
  "mk_drift f1 f2 x y d b =
     \<lparr>File1 = f1, File2 = f2, X1 = x, Y1 = y, dx = Fin 0, dy = Fin 0,
      total_distance_km = Fin d, Bear_deg = Fin b\<rparr>"

definition pair_table :: "drift list" where
  "pair_table = [mk_drift ''a'' ''b'' 0 0 10 0, mk_drift ''a'' ''b'' 3000 4000 10 0]"

text \<open>A row whose category is the one the classifier computes from its own fields.\<close>

definition consistent :: "int \<Rightarrow> obs \<Rightarrow> bool" where
  "consistent min_neighbors r \<longleftrightarrow>
     outlier_category r
       = str_digit (reason_spec r) @ str_digit (confidence_spec min_neighbors r)"

text \<open>
  What holds of every table of a run: rows outside the pool are consistent, and the table
  either has all rows at the initial category or is the result of a round on such a table.
\<close>

definition run_inv :: "real \<Rightarrow> int \<Rightarrow> obs list \<Rightarrow> bool" where
  "run_inv R m s \<longleftrightarrow>
     (\<forall>i<length s. in_pool (s ! i) \<or> consistent m (s ! i)) \<and>
     (inlier_count s = length s \<or>
      (\<exists>s'. (\<forall>i<length s'. in_pool (s' ! i) \<or> consistent m (s' ! i)) \<and> s = iteration R m s'))"

text \<open>
  Seven vectors of one scene on a grid of 1000 m. With a radius of 1 km the neighbours
  are: 0 - 1, 1 - 2, 2 - 3, 2 - 4, 4 - 5, 4 - 6. All bearings are equal.
\<close>

definition chain_table :: "drift list" where
  "chain_table =
     [mk_drift ''a'' ''b'' (- 2000) 0 9 0,
      mk_drift ''a'' ''b'' (- 1000) 0 17 0,
      mk_drift ''a'' ''b'' 0 0 8 0,
      mk_drift ''a'' ''b'' 0 (- 1000) 4 0,
      mk_drift ''a'' ''b'' 1000 0 3 0,
      mk_drift ''a'' ''b'' 2000 0 0 0,
      mk_drift ''a'' ''b'' 1000 1000 1 0]"

text \<open>A row of that scene: position, distance, category, neighbours, count, z-scores.\<close>

definition chain_row ::
  "real \<Rightarrow> real \<Rightarrow> real \<Rightarrow> string \<Rightarrow> nat list option \<Rightarrow> int \<Rightarrow> fl \<Rightarrow> fl \<Rightarrow> obs" where
  "chain_row x y d c ni nc dz bz =
     (add_columns (mk_drift ''a'' ''b'' x y d 0) 1)
       \<lparr>outlier_category := c, neighbor_indices := ni, neighbor_count := nc,
        distance_z_score := dz, bearing_z_score := bz\<rparr>"

text \<open>The tables that scene goes through, round after round.\<close>

definition chain_s0 :: "obs list" where
  "chain_s0 =
     [chain_row (- 2000) 0 9 ''01'' None 0 NaN NaN,
      chain_row (- 1000) 0 17 ''01'' None 0 NaN NaN,
      chain_row 0 0 8 ''01'' None 0 NaN NaN,
      chain_row 0 (- 1000) 4 ''01'' None 0 NaN NaN,
      chain_row 1000 0 3 ''01'' None 0 NaN NaN,
      chain_row 2000 0 0 ''01'' None 0 NaN NaN,
      chain_row 1000 1000 1 ''01'' None 0 NaN NaN]"

definition chain_s1 :: "obs list" where
  "chain_s1 =
     [chain_row (- 2000) 0 9 ''00'' (Some [1]) 1 NaN NaN,
      chain_row (- 1000) 0 17 ''10'' (Some [0, 2]) 2 (Fin 17) NaN,
      chain_row 0 0 8 ''00'' (Some [1, 3, 4]) 3 (Fin 0) NaN,
      chain_row 0 (- 1000) 4 ''00'' (Some [2]) 1 NaN NaN,
      chain_row 1000 0 3 ''00'' (Some [2, 5, 6]) 3 (Fin 0) NaN,
      chain_row 2000 0 0 ''00'' (Some [4]) 1 NaN NaN,
      chain_row 1000 1000 1 ''00'' (Some [4]) 1 NaN NaN]"

definition chain_s2 :: "obs list" where
  "chain_s2 =
     [chain_row (- 2000) 0 9 ''00'' None 0 NaN NaN,
      chain_row (- 1000) 0 17 ''10'' (Some [0, 2]) 2 (Fin 17) NaN,
      chain_row 0 0 8 ''10'' (Some [3, 4]) 2 (Fin 9) NaN,
      chain_row 0 (- 1000) 4 ''00'' (Some [2]) 1 NaN NaN,
      chain_row 1000 0 3 ''00'' (Some [2, 5, 6]) 3 (Fin 0) NaN,
      chain_row 2000 0 0 ''00'' (Some [4]) 1 NaN NaN,
      chain_row 1000 1000 1 ''00'' (Some [4]) 1 NaN NaN]"

definition chain_s3 :: "obs list" where
  "chain_s3 =
     [chain_row (- 2000) 0 9 ''00'' None 0 NaN NaN,
      chain_row (- 1000) 0 17 ''10'' (Some [0, 2]) 2 (Fin 17) NaN,
      chain_row 0 0 8 ''10'' (Some [3, 4]) 2 (Fin 9) NaN,
      chain_row 0 (- 1000) 4 ''00'' None 0 NaN NaN,
      chain_row 1000 0 3 ''10'' (Some [5, 6]) 2 (Fin 5) NaN,
      chain_row 2000 0 0 ''00'' (Some [4]) 1 NaN NaN,
      chain_row 1000 1000 1 ''00'' (Some [4]) 1 NaN NaN]"

text \<open>The two tables the two-row scene goes through with a radius of 20 km.\<close>

definition pair_s0 :: "obs list" where
  "pair_s0 =
     [chain_row 0 0 10 ''01'' None 0 NaN NaN,
      chain_row 3000 4000 10 ''01'' None 0 NaN NaN]"

definition pair_s1 :: "obs list" where
  "pair_s1 =
     [chain_row 0 0 10 ''00'' (Some [1]) 1 NaN NaN,
      chain_row 3000 4000 10 ''00'' (Some [0]) 1 NaN NaN]"

text \<open>Two vectors of different scenes, given in descending order of their identifiers.\<close>

definition swap_table :: "drift list" where
  "swap_table = [mk_drift ''b'' ''x'' 0 0 10 0, mk_drift ''a'' ''x'' 0 0 10 0]"

section \<open>Lemmas\<close>

lemma enumerate_map: "enumerate 0 xs = map (\<lambda>i. (i, xs ! i)) [0..<length xs]"
  by (rule nth_equalityI) (simp_all add: nth_enumerate_eq)

lemma pool_df_map: "pool_df s = map (\<lambda>i. (i, s ! i)) (pool_idx s)"
  by (simp add: pool_df_def pool_idx_def enumerate_map filter_map o_def in_pool_def)

lemma scene_df_map:
  "filter (\<lambda>(i, r). scene r = g) (pool_df s) = map (\<lambda>i. (i, s ! i)) (scene_idx s g)"
  by (simp add: pool_df_map pool_idx_def scene_idx_def filter_map o_def)

lemma uniq_set [simp]: "set (uniq xs) = set xs"
  by (induction xs) auto

lemma uniq_distinct [simp]: "distinct (uniq xs)"
  by (induction xs) auto

lemma map_nth_filter_upt:
  "map ((!) xs) (filter (\<lambda>j. P (xs ! j)) [0..<length xs]) = filter P xs"
proof (induction xs rule: rev_induct)
  case Nil
  then show ?case by simp
next
  case (snoc x xs)
  have a: "filter (\<lambda>j. P ((xs @ [x]) ! j)) [0..<length xs] = filter (\<lambda>j. P (xs ! j)) [0..<length xs]"
    by (rule filter_cong) (auto simp: nth_append)
  have b: "map ((!) (xs @ [x])) (filter (\<lambda>j. P (xs ! j)) [0..<length xs])
           = map ((!) xs) (filter (\<lambda>j. P (xs ! j)) [0..<length xs])"
    by (rule map_cong) (auto simp: nth_append)
  show ?case using snoc by (simp add: a b)
qed

lemma scene_idx_distinct: "distinct (scene_idx s g)"
  by (simp add: scene_idx_def)

lemma scene_idx_mem:
  "t \<in> set (scene_idx s g) \<longleftrightarrow> t < length s \<and> in_pool (s ! t) \<and> scene (s ! t) = g"
  by (auto simp: scene_idx_def)

lemma filter_scene_idx:
  assumes "scene (s ! t) = g"
  shows "filter (\<lambda>i. euclid (pos (s ! i)) (pos (s ! t)) \<le> radius \<and> i \<noteq> t) (scene_idx s g)
         = neighbors_spec radius s t"
  unfolding neighbors_spec_def scene_idx_def filter_filter
  by (rule filter_cong) (use assms in auto)

lemma neigh_out_eq:
  assumes l: "l < length (scene_idx s g)"
  shows "map ((!) (scene_idx s g))
           (filter (\<lambda>j. j \<noteq> l)
              (filter (\<lambda>j. euclid (pos (s ! (scene_idx s g ! j))) (pos (s ! (scene_idx s g ! l))) \<le> radius)
                 [0..<length (scene_idx s g)]))
         = neighbors_spec radius s (scene_idx s g ! l)"
proof -
  let ?idx = "scene_idx s g"
  let ?t = "?idx ! l"
  let ?P = "\<lambda>i. euclid (pos (s ! i)) (pos (s ! ?t)) \<le> radius \<and> i \<noteq> ?t"
  have tm: "?t \<in> set ?idx" using l by simp
  then have g: "scene (s ! ?t) = g" by (simp add: scene_idx_mem)
  have "filter (\<lambda>j. j \<noteq> l) (filter (\<lambda>j. euclid (pos (s ! (?idx ! j))) (pos (s ! ?t)) \<le> radius) [0..<length ?idx])
        = filter (\<lambda>j. ?P (?idx ! j)) [0..<length ?idx]"
    unfolding filter_filter
    by (rule filter_cong) (use l in \<open>auto simp: nth_eq_iff_index_eq scene_idx_distinct\<close>)
  then have "map ((!) ?idx) (filter (\<lambda>j. j \<noteq> l) (filter (\<lambda>j. euclid (pos (s ! (?idx ! j))) (pos (s ! ?t)) \<le> radius) [0..<length ?idx]))
        = filter ?P ?idx"
    using map_nth_filter_upt[where xs="?idx" and P="?P"] by simp
  also have "\<dots> = neighbors_spec radius s ?t"
    by (rule filter_scene_idx[OF g])
  finally show ?thesis .
qed

lemma neighbors_spec_not_self: "i \<notin> set (neighbors_spec radius s i)"
  by (simp add: neighbors_spec_def)

lemma process_point_eq:
  assumes l: "l < length (scene_idx s g)"
  defines "scene_df \<equiv> map (\<lambda>i. (i, s ! i)) (scene_idx s g)"
  shows "process_point scene_df
           (query_ball_point (map (\<lambda>(i, r). (X1 r, Y1 r)) scene_df) radius) out l
         = out[scene_idx s g ! l := write_point radius s (scene_idx s g ! l) (out ! (scene_idx s g ! l))]"
proof -
  let ?idx = "scene_idx s g"
  let ?t = "?idx ! l"
  let ?xy = "map (\<lambda>(i, r). (X1 r, Y1 r)) scene_df"
  let ?ni = "filter (\<lambda>j. j \<noteq> l)
              (filter (\<lambda>j. euclid (pos (s ! (?idx ! j))) (pos (s ! ?t)) \<le> radius) [0..<length ?idx])"
  have len: "length ?xy = length ?idx" by (simp add: scene_df_def)
  have xy: "\<And>j. j < length ?idx \<Longrightarrow> ?xy ! j = pos (s ! (?idx ! j))"
    by (simp add: scene_df_def pos_def)
  have q: "query_ball_point ?xy radius ! l
           = filter (\<lambda>j. euclid (pos (s ! (?idx ! j))) (pos (s ! ?t)) \<le> radius) [0..<length ?idx]"
    unfolding query_ball_point_def using l
    by (simp only: nth_map len xy) (rule filter_cong, simp, simp add: xy)
  have ni: "filter (\<lambda>j. j \<noteq> l) (query_ball_point ?xy radius ! l) = ?ni"
    by (simp only: q)
  have sub: "set ?ni \<subseteq> {..<length ?idx}" by auto
  have m1: "map (\<lambda>j. fst (scene_df ! j)) ?ni = neighbors_spec radius s ?t"
  proof -
    have "map (\<lambda>j. fst (scene_df ! j)) ?ni = map ((!) ?idx) ?ni"
      by (rule map_cong) (auto simp: scene_df_def)
    also have "\<dots> = neighbors_spec radius s ?t"
      by (rule neigh_out_eq[OF l])
    finally show ?thesis .
  qed
  have m2: "map (\<lambda>j. snd (scene_df ! j)) ?ni = map ((!) s) (neighbors_spec radius s ?t)"
  proof -
    have "map (\<lambda>j. snd (scene_df ! j)) ?ni = map ((!) s) (map ((!) ?idx) ?ni)"
      unfolding map_map by (rule map_cong) (auto simp: scene_df_def)
    also have "\<dots> = map ((!) s) (neighbors_spec radius s ?t)"
      by (simp only: neigh_out_eq[OF l])
    finally show ?thesis .
  qed
  have f: "filter (\<lambda>i. i \<noteq> ?t) (neighbors_spec radius s ?t) = neighbors_spec radius s ?t"
    by (rule filter_True) (use neighbors_spec_not_self in metis)
  have e: "?ni = [] \<longleftrightarrow> neighbors_spec radius s ?t = []"
    using m1 by (metis map_is_Nil_conv)
  have c: "fst (scene_df ! l) = ?t" "snd (scene_df ! l) = s ! ?t"
    using l by (simp_all add: scene_df_def)
  show ?thesis
    unfolding process_point_def Let_def ni m1 m2 c f length_0_conv e
    by (simp add: write_point_def Let_def dist_z_def bear_z_def map_map o_def)
qed

lemma foldl_write_length [simp]:
  "length (foldl (\<lambda>out t. out[t := W t (out ! t)]) out ts) = length out"
  by (induction ts arbitrary: out) simp_all

lemma foldl_write_nth:
  assumes "distinct ts" "i < length out"
  shows "foldl (\<lambda>out t. out[t := W t (out ! t)]) out ts ! i
         = (if i \<in> set ts then W i (out ! i) else out ! i)"
  using assms
proof (induction ts arbitrary: out)
  case Nil
  then show ?case by simp
next
  case (Cons t ts)
  then show ?case by (cases "i = t") (auto simp: nth_list_update)
qed

lemma foldl_process_point:
  "foldl (process_point (map (\<lambda>i. (i, s ! i)) (scene_idx s g))
            (query_ball_point (map (\<lambda>(i, r). (X1 r, Y1 r)) (map (\<lambda>i. (i, s ! i)) (scene_idx s g))) radius))
     out [0..<length (scene_idx s g)]
   = foldl (\<lambda>out t. out[t := write_point radius s t (out ! t)]) out (scene_idx s g)"
proof -
  let ?idx = "scene_idx s g"
  let ?h = "\<lambda>out t. out[t := write_point radius s t (out ! t)]"
  have "foldl (process_point (map (\<lambda>i. (i, s ! i)) ?idx)
            (query_ball_point (map (\<lambda>(i, r). (X1 r, Y1 r)) (map (\<lambda>i. (i, s ! i)) ?idx)) radius))
          out [0..<length ?idx]
        = foldl (\<lambda>out l. ?h out (?idx ! l)) out [0..<length ?idx]"
  proof (rule foldl_cong[OF refl refl])
    fix a x
    assume "x \<in> set [0..<length ?idx]"
    then have "x < length ?idx" by simp
    then show "process_point (map (\<lambda>i. (i, s ! i)) ?idx)
            (query_ball_point (map (\<lambda>(i, r). (X1 r, Y1 r)) (map (\<lambda>i. (i, s ! i)) ?idx)) radius) a x
          = ?h a (?idx ! x)"
      by (rule process_point_eq)
  qed
  also have "\<dots> = foldl ?h out (map ((!) ?idx) [0..<length ?idx])"
    by (simp add: foldl_map)
  also have "\<dots> = foldl ?h out ?idx"
    by (simp only: map_nth)
  finally show ?thesis .
qed

lemma process_scene_eq:
  "process_scene radius out (g, filter (\<lambda>(i, r). scene r = g) (pool_df s))
   = foldl (\<lambda>out t. out[t := write_point radius s t (out ! t)]) out (scene_idx s g)"
proof (cases "scene_idx s g = []")
  case True
  then show ?thesis by (simp add: process_scene_def scene_df_map)
next
  case False
  then show ?thesis
    by (simp add: process_scene_def scene_df_map Let_def query_ball_point_def
        foldl_process_point[unfolded query_ball_point_def, simplified])
qed

lemma fold_groups_nth:
  assumes "distinct gs" "i < length out" "length out = length s"
  shows "foldl (\<lambda>out g. foldl (\<lambda>out t. out[t := W t (out ! t)]) out (scene_idx s g)) out gs ! i
         = (if in_pool (s ! i) \<and> scene (s ! i) \<in> set gs then W i (out ! i) else out ! i)"
  using assms
proof (induction gs arbitrary: out)
  case Nil
  then show ?case by simp
next
  case (Cons g gs)
  let ?out' = "foldl (\<lambda>out t. out[t := W t (out ! t)]) out (scene_idx s g)"
  have len: "length ?out' = length s" "i < length ?out'" using Cons.prems by simp_all
  have step: "?out' ! i = (if i \<in> set (scene_idx s g) then W i (out ! i) else out ! i)"
    by (rule foldl_write_nth) (use Cons.prems in \<open>simp_all add: scene_idx_distinct\<close>)
  have "foldl (\<lambda>out g. foldl (\<lambda>out t. out[t := W t (out ! t)]) out (scene_idx s g)) out (g # gs) ! i
        = (if in_pool (s ! i) \<and> scene (s ! i) \<in> set gs then W i (?out' ! i) else ?out' ! i)"
    using Cons.IH[of ?out'] Cons.prems len by simp
  also have "\<dots> = (if in_pool (s ! i) \<and> scene (s ! i) \<in> set (g # gs) then W i (out ! i) else out ! i)"
    using Cons.prems by (auto simp: step scene_idx_mem)
  finally show ?case .
qed

lemma fold_groups_length:
  "length (foldl (\<lambda>out g. foldl (\<lambda>out t. out[t := W t (out ! t)]) out (scene_idx s g)) out gs)
   = length out"
  by (induction gs arbitrary: out) simp_all

lemma build_neighbors_fold:
  "build_neighbors radius s
   = foldl (\<lambda>out g. foldl (\<lambda>out t. out[t := write_point radius s t (out ! t)]) out (scene_idx s g))
       s (uniq (map (\<lambda>(i, r). scene r) (pool_df s)))"
  by (simp add: build_neighbors_def groupby_scene_def foldl_map process_scene_eq)

lemma build_neighbors_length [simp]: "length (build_neighbors radius s) = length s"
  by (simp add: build_neighbors_fold fold_groups_length)

lemma pool_scenes:
  "i < length s \<Longrightarrow> in_pool (s ! i) \<Longrightarrow> scene (s ! i) \<in> set (map (\<lambda>(i, r). scene r) (pool_df s))"
  by (force simp: pool_df_map pool_idx_def)

lemma build_neighbors_nth:
  assumes "i < length s"
  shows "build_neighbors radius s ! i
         = (if in_pool (s ! i) then write_point radius s i (s ! i) else s ! i)"
  using assms pool_scenes[of i s]
  by (simp add: build_neighbors_fold fold_groups_nth del: set_map)

lemma assign_category_map: "assign_category m s = map (categorize m) s"
  by (simp add: assign_category_def categorize_def)

lemma iteration_length [simp]: "length (iteration radius m s) = length s"
  by (simp add: iteration_def assign_category_map)

lemma iteration_nth:
  assumes "i < length s"
  shows "iteration radius m s ! i
         = categorize m (if in_pool (s ! i) then write_point radius s i (s ! i) else s ! i)"
  using assms by (simp add: iteration_def assign_category_map build_neighbors_nth)

lemma loop_states_not_Nil [simp]: "loop_states n r m prev s \<noteq> []"
  by (cases n) (simp_all add: Let_def)

lemma loop_states_hd [simp]: "loop_states n r m prev s ! 0 = s"
  by (cases n) (simp_all add: Let_def)

lemma outlier_loop_last:
  "fst (outlier_loop n r m prev s ps) = last (loop_states n r m prev s)"
  by (induction n arbitrary: prev s ps) (simp_all add: Let_def)

lemma outlier_search_last:
  "fst (outlier_search df radius_km m n) = last (search_states df radius_km m n)"
  by (simp add: outlier_search_def search_states_def outlier_loop_last)

lemma loop_states_step:
  "Suc k < length (loop_states n r m prev s) \<Longrightarrow>
     loop_states n r m prev s ! Suc k = iteration r m (loop_states n r m prev s ! k)"
proof (induction n arbitrary: prev s k)
  case 0
  then show ?case by simp
next
  case (Suc n)
  show ?case
  proof (cases "prev \<noteq> None \<and> Some (inlier_count s) = prev")
    case True
    with Suc.prems show ?thesis by (simp add: Let_def)
  next
    case False
    then have eq: "loop_states (Suc n) r m prev s
                   = s # loop_states n r m (Some (inlier_count s)) (iteration r m s)"
      by (auto simp: Let_def)
    show ?thesis
    proof (cases k)
      case 0
      then show ?thesis unfolding eq by simp
    next
      case (Suc k')
      with Suc.prems have "Suc k' < length (loop_states n r m (Some (inlier_count s)) (iteration r m s))"
        unfolding eq by simp
      from Suc.IH[OF this] Suc show ?thesis unfolding eq by simp
    qed
  qed
qed

lemma loop_states_length_le: "length (loop_states n r m prev s) \<le> Suc n"
  by (induction n arbitrary: prev s) (simp_all add: Let_def)

lemma search_states_step:
  "Suc k < length (search_states df radius_km m n) \<Longrightarrow>
     search_states df radius_km m n ! Suc k
     = iteration (radius_km * 1000) m (search_states df radius_km m n ! k)"
  unfolding search_states_def by (rule loop_states_step)

lemma search_states_0 [simp]: "search_states df radius_km m n ! 0 = init_table df"
  by (simp add: search_states_def)

lemma search_states_Suc_length: "2 \<le> length (search_states df radius_km m (Suc n))"
  by (cases n) (simp_all add: search_states_def Let_def)

text \<open>A property that holds at the start and is kept by a round holds in every table.\<close>

lemma search_states_induct:
  assumes "k < length (search_states df radius_km m n)"
    and "P (init_table df)"
    and "\<And>s. P s \<Longrightarrow> P (iteration (radius_km * 1000) m s)"
  shows "P (search_states df radius_km m n ! k)"
  using assms(1)
proof (induction k)
  case 0
  then show ?case using assms(2) by simp
next
  case (Suc k)
  then show ?case using assms(3) by (simp add: search_states_step)
qed

lemma init_table_length [simp]: "length (init_table df) = length df"
  by (simp add: init_table_def ngroup_def Let_def)

lemma init_table_nth:
  "i < length df \<Longrightarrow> \<exists>d g. init_table df ! i = add_columns d g"
  by (simp add: init_table_def ngroup_def Let_def) blast

lemma add_columns_sel [simp]:
  "outlier_category (add_columns d g) = ''01''"
  "neighbor_indices (add_columns d g) = None"
  "neighbor_count (add_columns d g) = 0"
  "distance_z_score (add_columns d g) = NaN"
  "bearing_z_score (add_columns d g) = NaN"
  "scene (add_columns d g) = g"
  "drift.truncate (add_columns d g) = d"
  by (simp_all add: add_columns_def drift.defs obs.defs)

lemma search_states_length:
  "k < length (search_states df radius_km m n) \<Longrightarrow> length (search_states df radius_km m n ! k) = length df"
  by (rule search_states_induct[where P="\<lambda>s. length s = length df"]) simp_all

lemma write_point_frame [simp]:
  "scene (write_point R s i r) = scene r"
  "X1 (write_point R s i r) = X1 r"
  "Y1 (write_point R s i r) = Y1 r"
  "total_distance_km (write_point R s i r) = total_distance_km r"
  "bearing_rad (write_point R s i r) = bearing_rad r"
  "outlier_category (write_point R s i r) = outlier_category r"
  "drift.truncate (write_point R s i r) = drift.truncate r"
  by (simp_all add: write_point_def Let_def drift.defs)

lemma categorize_frame [simp]:
  "scene (categorize m r) = scene r"
  "X1 (categorize m r) = X1 r"
  "Y1 (categorize m r) = Y1 r"
  "total_distance_km (categorize m r) = total_distance_km r"
  "bearing_rad (categorize m r) = bearing_rad r"
  "neighbor_indices (categorize m r) = neighbor_indices r"
  "neighbor_count (categorize m r) = neighbor_count r"
  "distance_z_score (categorize m r) = distance_z_score r"
  "bearing_z_score (categorize m r) = bearing_z_score r"
  "drift.truncate (categorize m r) = drift.truncate r"
  by (simp_all add: categorize_def drift.defs)

lemma iteration_frame:
  assumes "i < length s"
  shows "scene (iteration R m s ! i) = scene (s ! i)"
    "pos (iteration R m s ! i) = pos (s ! i)"
    "total_distance_km (iteration R m s ! i) = total_distance_km (s ! i)"
    "bearing_rad (iteration R m s ! i) = bearing_rad (s ! i)"
    "drift.truncate (iteration R m s ! i) = drift.truncate (s ! i)"
  using assms by (simp_all add: iteration_nth pos_def)

lemma base_cat_reason: "base_cat r = reason_spec r"
  by (cases "distance_z_score r"; cases "bearing_z_score r")
     (auto simp: base_cat_def reason_spec_def distance_flag_def bearing_flag_def)

lemma reason_spec_le3: "reason_spec r \<le> 3"
  by (simp add: reason_spec_def)

lemma astype_str_digit: "n \<le> 3 \<Longrightarrow> astype_str n = str_digit n"
proof -
  assume "n \<le> 3"
  then consider "n = 0" | "n = 1" | "n = 2" | "n = 3" by linarith
  then show ?thesis by cases (simp_all add: astype_str_def str_digit_def)
qed

lemma categorize_category:
  "outlier_category (categorize m r) = str_digit (reason_spec r) @ str_digit (confidence_spec m r)"
  by (simp add: categorize_def base_cat_reason astype_str_digit reason_spec_le3
      statistical_confidence_flag_def confidence_spec_def)

lemma reason_spec_categorize [simp]: "reason_spec (categorize m r) = reason_spec r"
  by (simp add: reason_spec_def distance_flag_def bearing_flag_def)

lemma confidence_spec_categorize [simp]: "confidence_spec m' (categorize m r) = confidence_spec m' r"
  by (simp add: confidence_spec_def)

lemma iteration_category:
  assumes "i < length s"
  shows "outlier_category (iteration R m s ! i)
         = str_digit (reason_spec (iteration R m s ! i)) @ str_digit (confidence_spec m (iteration R m s ! i))"
  using assms by (simp add: iteration_nth categorize_category)

lemma neighbors_spec_set:
  "set (neighbors_spec R s i)
   = {j. j < length s \<and> j \<noteq> i \<and> in_pool (s ! j) \<and> scene (s ! j) = scene (s ! i) \<and>
         euclid (X1 (s ! j), Y1 (s ! j)) (X1 (s ! i), Y1 (s ! i)) \<le> R}"
  by (auto simp: neighbors_spec_def pos_def)

lemma neighbors_spec_distinct [simp]: "distinct (neighbors_spec R s i)"
  by (simp add: neighbors_spec_def)

lemma nb_list_write_point [simp]: "nb_list (write_point R s i r) = neighbors_spec R s i"
  by (simp add: nb_list_def write_point_def Let_def)

lemma nb_list_categorize [simp]: "nb_list (categorize m r) = nb_list r"
  by (simp add: nb_list_def)

lemma iteration_nb_list:
  assumes "i < length s" "in_pool (s ! i)"
  shows "nb_list (iteration R m s ! i) = neighbors_spec R s i"
  using assms by (simp add: iteration_nth)

lemma euclid_le_iff:
  "0 \<le> r \<Longrightarrow> euclid p q \<le> r \<longleftrightarrow> (fst p - fst q)\<^sup>2 + (snd p - snd q)\<^sup>2 \<le> r\<^sup>2"
  unfolding euclid_def by (metis abs_of_nonneg real_sqrt_abs real_sqrt_le_iff)

lemma init_pair_table:
  "init_table pair_table = [add_columns (mk_drift ''a'' ''b'' 0 0 10 0) 1, add_columns (mk_drift ''a'' ''b'' 3000 4000 10 0) 1]"
  by (simp add: init_table_def pair_table_def ngroup_def Let_def scene_key_def mk_drift_def)

lemma add_columns_in_pool [simp]: "in_pool (add_columns d g)"
  by (simp add: in_pool_def)

lemma add_columns_pos [simp]: "pos (add_columns d g) = (X1 d, Y1 d)"
  by (simp add: pos_def add_columns_def drift.defs obs.defs)

lemma mk_drift_sel [simp]:
  "X1 (mk_drift f1 f2 x y d b) = x" "Y1 (mk_drift f1 f2 x y d b) = y"
  "total_distance_km (mk_drift f1 f2 x y d b) = Fin d"
  "Bear_deg (mk_drift f1 f2 x y d b) = Fin b"
  by (simp_all add: mk_drift_def)

lemma upt2: "[0..<2] = [0, 1]" by (simp add: upt_rec)

lemma nb0: "neighbors_spec 20000 (init_table pair_table) 0 = [1]"
  by (simp add: neighbors_spec_def init_pair_table euclid_le_iff upt2)

lemma circular_std_zero_angle: "circular_std [Fin 0] = Fin 0"
  by (simp add: circular_std_def nanmean_def mean_def np_sin_def np_cos_def fl_mul_def fl_add_def
      np_clip_def Let_def)

lemma nanstd_single: "nanstd [Fin x] = Fin 0"
  by (simp add: nanstd_def mean_def)

lemma add_columns_more_sel [simp]:
  "total_distance_km (add_columns d g) = total_distance_km d"
  "bearing_rad (add_columns d g) = deg2rad (Bear_deg d)"
  by (simp_all add: add_columns_def drift.defs obs.defs)

lemma pair_round1_scores:
  "distance_z_score (search_states pair_table 20 10 1 ! Suc 0 ! 0) = NaN \<and>
   bearing_z_score (search_states pair_table 20 10 1 ! Suc 0 ! 0) = NaN \<and>
   neighbor_count (search_states pair_table 20 10 1 ! Suc 0 ! 0) = 1 \<and>
   neighbor_indices (search_states pair_table 20 10 1 ! Suc 0 ! 0) = Some [1]"
proof -
  have s: "search_states pair_table 20 10 1 ! Suc 0 = iteration 20000 10 (init_table pair_table)"
    using search_states_step[of 0 pair_table 20 10 1] search_states_Suc_length[of pair_table 20 10 0]
    by simp
  have l: "0 < length (init_table pair_table)" by (simp add: pair_table_def)
  show ?thesis
    unfolding s iteration_nth[OF l]
    apply (simp add: write_point_def nb0 Let_def dist_z_def bear_z_def)
    apply (simp add: init_pair_table nanstd_single deg2rad_def circular_std_zero_angle np_round_def)
    done
qed

lemma pair_table_length [simp]: "length pair_table = 2"
  by (simp add: pair_table_def)

lemma add_columns_xy [simp]:
  "X1 (add_columns d g) = X1 d" "Y1 (add_columns d g) = Y1 d"
  by (simp_all add: add_columns_def drift.defs obs.defs)

lemma search_states_length_one: "length (search_states df radius_km m 1) = 2"
  using search_states_Suc_length[of df radius_km m 0]
    loop_states_length_le[of 1 "radius_km * 1000" m None "init_table df"]
  by (simp add: search_states_def)

lemma iteration_bookkeeping:
  assumes inv: "\<And>i. i < length s \<Longrightarrow>
      (case neighbor_indices (s ! i) of
         None \<Rightarrow> neighbor_count (s ! i) = 0
       | Some ns \<Rightarrow> ns \<noteq> [] \<and> distinct ns \<and> i \<notin> set ns \<and>
           (\<forall>j\<in>set ns. j < length s \<and> scene (s ! j) = scene (s ! i)) \<and>
           neighbor_count (s ! i) = int (length ns))"
    and i: "i < length s"
  shows "(case neighbor_indices (iteration R m s ! i) of
         None \<Rightarrow> neighbor_count (iteration R m s ! i) = 0
       | Some ns \<Rightarrow> ns \<noteq> [] \<and> distinct ns \<and> i \<notin> set ns \<and>
           (\<forall>j\<in>set ns. j < length (iteration R m s) \<and>
               scene (iteration R m s ! j) = scene (iteration R m s ! i)) \<and>
           neighbor_count (iteration R m s ! i) = int (length ns))"
proof (cases "in_pool (s ! i)")
  case True
  then show ?thesis
    using i by (auto simp: iteration_nth iteration_frame write_point_def Let_def neighbors_spec_set)
next
  case False
  then show ?thesis
    using i inv[OF i]
    by (auto simp: iteration_nth iteration_frame split: option.splits)
qed

lemma np_round_NaN [simp]: "np_round NaN n = NaN"
  by (simp add: np_round_def)



lemma in_pool_reason0:
  "outlier_category r = str_digit (reason_spec r) @ str_digit (confidence_spec m r) \<Longrightarrow>
     in_pool r \<longleftrightarrow> reason_spec r = 0"
  by (auto simp: in_pool_def str_digit_def reason_spec_def confidence_spec_def)



lemma categorize_consistent [simp]: "consistent m (categorize m r)"
  by (simp add: consistent_def categorize_category)

lemma categorize_id: "consistent m r \<Longrightarrow> categorize m r = r"
  by (simp add: consistent_def categorize_def base_cat_reason astype_str_digit reason_spec_le3
      statistical_confidence_flag_def confidence_spec_def)

lemma iteration_consistent: "i < length s \<Longrightarrow> consistent m (iteration R m s ! i)"
  by (simp add: iteration_nth)

lemma iteration_frozen:
  assumes "i < length s" "\<not> in_pool (s ! i)" "in_pool (s ! i) \<or> consistent m (s ! i)"
  shows "iteration R m s ! i = s ! i"
  using assms by (simp add: iteration_nth categorize_id)

lemma length_filter_le_imp:
  "(\<And>x. x \<in> set xs \<Longrightarrow> P x \<Longrightarrow> Q x) \<Longrightarrow> length (filter P xs) \<le> length (filter Q xs)"
  by (induction xs) auto

lemma length_filter_nth:
  "length (filter P xs) = length (filter (\<lambda>i. P (xs ! i)) [0..<length xs])"
proof -
  have "filter P (map ((!) xs) [0..<length xs]) = map ((!) xs) (filter (\<lambda>i. P (xs ! i)) [0..<length xs])"
    by (simp add: filter_map o_def)
  then show ?thesis by (metis length_map map_nth)
qed

lemma pool_df_length: "length (pool_df s) = length (filter (\<lambda>i. in_pool (s ! i)) [0..<length s])"
  by (simp add: pool_df_map pool_idx_def)

lemma write_point_count:
  "neighbor_count (write_point R s i r) = int (length (neighbors_spec R s i))"
  by (simp add: write_point_def Let_def)

lemma consistent_01:
  "consistent m r \<Longrightarrow> outlier_category r = ''01'' \<longleftrightarrow> reason_spec r = 0 \<and> m \<le> neighbor_count r"
  by (auto simp: consistent_def str_digit_def reason_spec_def confidence_spec_def)

lemma consistent_pool: "consistent m r \<Longrightarrow> in_pool r \<longleftrightarrow> reason_spec r = 0"
  unfolding consistent_def by (rule in_pool_reason0)

lemma neighbors_spec_shrink:
  assumes len: "length s' = length s"
    and pool: "\<And>j. j < length s \<Longrightarrow> in_pool (s' ! j) \<Longrightarrow> in_pool (s ! j)"
    and sc: "\<And>j. j < length s \<Longrightarrow> scene (s' ! j) = scene (s ! j)"
    and ps: "\<And>j. j < length s \<Longrightarrow> pos (s' ! j) = pos (s ! j)"
    and i: "i < length s"
  shows "length (neighbors_spec R s' i) \<le> length (neighbors_spec R s i)"
  unfolding neighbors_spec_def len
  by (rule length_filter_le_imp) (use pool sc ps i in auto)

text \<open>One round from a table whose rows outside the pool are consistent.\<close>

lemma round_mono:
  assumes inv: "\<And>i. i < length s \<Longrightarrow> in_pool (s ! i) \<or> consistent m (s ! i)"
  shows "length (pool_df (iteration R m s)) \<le> length (pool_df s)"
    and "\<And>i. i < length s \<Longrightarrow> \<not> in_pool (s ! i) \<Longrightarrow> iteration R m s ! i = s ! i"
proof -
  show fr: "\<And>i. i < length s \<Longrightarrow> \<not> in_pool (s ! i) \<Longrightarrow> iteration R m s ! i = s ! i"
    using inv iteration_frozen by blast
  show "length (pool_df (iteration R m s)) \<le> length (pool_df s)"
    unfolding pool_df_length iteration_length
    by (rule length_filter_le_imp) (use fr in force)
qed

lemma round_count_mono:
  assumes inv: "\<And>i. i < length s' \<Longrightarrow> in_pool (s' ! i) \<or> consistent m (s' ! i)"
    and s: "s = iteration R m s'"
  shows "inlier_count (iteration R m s) \<le> inlier_count s"
proof -
  have len: "length s = length s'" by (simp add: s)
  have cons: "\<And>i. i < length s \<Longrightarrow> consistent m (s ! i)"
    by (simp add: s iteration_consistent)
  have fr': "\<not> in_pool (s ! i)" if "i < length s" "\<not> in_pool (s' ! i)" for i
  proof -
    have "i < length s'" using that len by simp
    then have "iteration R m s' ! i = s' ! i"
      using inv[of i] that(2) by (simp add: iteration_frozen)
    then show ?thesis using that(2) by (simp add: s)
  qed
  have key: "outlier_category (s ! i) = ''01''"
    if i: "i < length s" and c: "outlier_category (iteration R m s ! i) = ''01''" for i
  proof -
    have p2: "in_pool (iteration R m s ! i)" using c by (simp add: in_pool_def)
    have p1: "in_pool (s ! i)"
    proof (rule ccontr)
      assume "\<not> in_pool (s ! i)"
      then have "iteration R m s ! i = s ! i"
        using i cons by (simp add: iteration_frozen)
      with p2 \<open>\<not> in_pool (s ! i)\<close> show False by simp
    qed
    then have p0: "in_pool (s' ! i)" using fr' i by blast
    have i': "i < length s'" using i len by simp
    have "m \<le> neighbor_count (iteration R m s ! i)"
      using c consistent_01[OF iteration_consistent[OF i, of m R]] by simp
    then have n2: "m \<le> int (length (neighbors_spec R s i))"
      using i p1 by (simp add: iteration_nth write_point_count)
    have "length (neighbors_spec R s i) \<le> length (neighbors_spec R s' i)"
    proof (rule neighbors_spec_shrink)
      show "length s = length s'" by (rule len)
      show "\<And>j. j < length s' \<Longrightarrow> in_pool (s ! j) \<Longrightarrow> in_pool (s' ! j)"
        using fr' len by auto
      show "\<And>j. j < length s' \<Longrightarrow> scene (s ! j) = scene (s' ! j)"
        by (simp add: s iteration_frame)
      show "\<And>j. j < length s' \<Longrightarrow> pos (s ! j) = pos (s' ! j)"
        by (simp add: s iteration_frame)
      show "i < length s'" by (rule i')
    qed
    with n2 have "m \<le> int (length (neighbors_spec R s' i))" by simp
    then have "m \<le> neighbor_count (s ! i)"
      using i' p0 by (simp add: s iteration_nth write_point_count)
    moreover have "reason_spec (s ! i) = 0"
      using consistent_pool[OF cons[OF i]] p1 by simp
    ultimately show ?thesis
      using consistent_01[OF cons[OF i]] by simp
  qed
  show ?thesis
    unfolding inlier_count_def
    unfolding length_filter_nth[of _ "iteration R m s"] length_filter_nth[of _ s] iteration_length
    by (rule length_filter_le_imp) (use key in auto)
qed

lemma init_count: "inlier_count (init_table df) = length df"
proof -
  have "\<And>r. r \<in> set (init_table df) \<Longrightarrow> outlier_category r = ''01''"
    by (auto simp: in_set_conv_nth dest!: init_table_nth[rotated])
  then have "filter (\<lambda>r. outlier_category r = ''01'') (init_table df) = init_table df"
    by (simp add: filter_True)
  then show ?thesis by (simp add: inlier_count_def)
qed

lemma inlier_count_le: "inlier_count s \<le> length s"
  by (simp add: inlier_count_def)

lemma run_inv_init: "run_inv R m (init_table df)"
proof -
  have "\<And>i. i < length (init_table df) \<Longrightarrow> in_pool (init_table df ! i)"
    using init_table_nth by fastforce
  then show ?thesis by (simp add: run_inv_def init_count)
qed

lemma run_inv_step: "run_inv R m s \<Longrightarrow> run_inv R m (iteration R m s)"
  unfolding run_inv_def using iteration_consistent by (metis iteration_length)

lemma run_inv_states:
  assumes "k < length (search_states df radius_km m n)"
  shows "run_inv (radius_km * 1000) m (search_states df radius_km m n ! k)"
  by (rule search_states_induct[OF assms]) (simp_all add: run_inv_init run_inv_step)

lemma run_inv_round:
  assumes "run_inv R m s"
  shows "inlier_count (iteration R m s) \<le> inlier_count s"
    and "length (pool_df (iteration R m s)) \<le> length (pool_df s)"
    and "\<And>i. i < length s \<Longrightarrow> \<not> in_pool (s ! i) \<Longrightarrow> iteration R m s ! i = s ! i"
proof -
  from assms have inv: "\<And>i. i < length s \<Longrightarrow> in_pool (s ! i) \<or> consistent m (s ! i)"
    and alt: "inlier_count s = length s \<or>
      (\<exists>s'. (\<forall>i<length s'. in_pool (s' ! i) \<or> consistent m (s' ! i)) \<and> s = iteration R m s')"
    by (simp_all add: run_inv_def)
  show "length (pool_df (iteration R m s)) \<le> length (pool_df s)"
    using inv by (rule round_mono(1))
  show "\<And>i. i < length s \<Longrightarrow> \<not> in_pool (s ! i) \<Longrightarrow> iteration R m s ! i = s ! i"
    using inv round_mono(2) by blast
  from alt show "inlier_count (iteration R m s) \<le> inlier_count s"
  proof
    assume "inlier_count s = length s"
    then show ?thesis using inlier_count_le[of "iteration R m s"] by simp
  next
    assume "\<exists>s'. (\<forall>i<length s'. in_pool (s' ! i) \<or> consistent m (s' ! i)) \<and> s = iteration R m s'"
    then obtain s' where "\<And>i. i < length s' \<Longrightarrow> in_pool (s' ! i) \<or> consistent m (s' ! i)"
      and "s = iteration R m s'" by blast
    then show ?thesis by (rule round_count_mono)
  qed
qed

lemma iteration_eval:
  "iteration R m s
   = map (\<lambda>i. categorize m (if in_pool (s ! i) then write_point R s i (s ! i) else s ! i))
       [0..<length s]"
  by (rule nth_equalityI) (simp_all add: iteration_nth)

lemma upt7: "[0..<7] = [0, 1, 2, 3, 4, 5, 6]"
  by (simp add: upt_rec)

lemma chain_row_sel [simp]:
  "outlier_category (chain_row x y d c ni nc dz bz) = c"
  "neighbor_indices (chain_row x y d c ni nc dz bz) = ni"
  "neighbor_count (chain_row x y d c ni nc dz bz) = nc"
  "distance_z_score (chain_row x y d c ni nc dz bz) = dz"
  "bearing_z_score (chain_row x y d c ni nc dz bz) = bz"
  "scene (chain_row x y d c ni nc dz bz) = 1"
  "pos (chain_row x y d c ni nc dz bz) = (x, y)"
  "total_distance_km (chain_row x y d c ni nc dz bz) = Fin d"
  "bearing_rad (chain_row x y d c ni nc dz bz) = Fin 0"
  by (simp_all add: chain_row_def pos_def deg2rad_def)

lemma chain_row_in_pool [simp]:
  "in_pool (chain_row x y d c ni nc dz bz) \<longleftrightarrow> c = ''00'' \<or> c = ''01''"
  by (simp add: in_pool_def)

lemma chain_row_upd:
  "(chain_row x y d c ni nc dz bz)\<lparr>neighbor_indices := ni', neighbor_count := nc',
      distance_z_score := dz', bearing_z_score := bz'\<rparr> = chain_row x y d c ni' nc' dz' bz'"
  "(chain_row x y d c ni nc dz bz)\<lparr>outlier_category := c'\<rparr> = chain_row x y d c' ni nc dz bz"
  by (simp_all add: chain_row_def)

lemma init_chain_table:
  "init_table chain_table =
     [chain_row (- 2000) 0 9 ''01'' None 0 NaN NaN,
      chain_row (- 1000) 0 17 ''01'' None 0 NaN NaN,
      chain_row 0 0 8 ''01'' None 0 NaN NaN,
      chain_row 0 (- 1000) 4 ''01'' None 0 NaN NaN,
      chain_row 1000 0 3 ''01'' None 0 NaN NaN,
      chain_row 2000 0 0 ''01'' None 0 NaN NaN,
      chain_row 1000 1000 1 ''01'' None 0 NaN NaN]"
  by (simp add: init_table_def chain_table_def ngroup_def Let_def scene_key_def mk_drift_def
      chain_row_def add_columns_def drift.defs obs.defs)

lemma sqrt_quarter: "sqrt (1 / 4) = 1 / 2"
  by (simp add: real_sqrt_divide)

lemmas eval_defs =
  iteration_eval upt7 neighbors_spec_def euclid_le_iff write_point_def dist_z_def bear_z_def
  nanmean_def nanstd_def mean_def circular_mean_def circular_std_def np_sin_def np_cos_def
  np_abs_def fl_sub_def fl_mul_def fl_add_def fl_div_def np_clip_def np_arctan2_def
  categorize_def base_cat_def statistical_confidence_flag_def astype_str_def chain_row_upd
  np_round_def rint_def Let_def sqrt_quarter

lemma chain_init: "init_table chain_table = chain_s0"
  by (simp add: init_chain_table chain_s0_def)

lemma chain_round1: "iteration 1000 10 chain_s0 = chain_s1"
  unfolding chain_s0_def chain_s1_def
  by (simp add: eval_defs) (simp add: eval_nat_numeral)

lemma chain_round2: "iteration 1000 10 chain_s1 = chain_s2"
  unfolding chain_s1_def chain_s2_def
  by (simp add: eval_defs) (simp add: eval_nat_numeral)

lemma chain_round3: "iteration 1000 10 chain_s2 = chain_s3"
  unfolding chain_s2_def chain_s3_def
  by (simp add: eval_defs) (simp add: eval_nat_numeral)

lemma chain_counts:
  "inlier_count chain_s0 = 7" "inlier_count chain_s1 = 0" "inlier_count chain_s2 = 0"
  "length (pool_df chain_s0) = 7" "length (pool_df chain_s1) = 6" "length (pool_df chain_s2) = 5"
  by (simp_all add: inlier_count_def pool_df_length chain_s0_def chain_s1_def chain_s2_def upt7)

lemma chain_states: "search_states chain_table 1 10 5 = [chain_s0, chain_s1, chain_s2]"
proof -
  have five: "(5::nat) = Suc (Suc (Suc (Suc (Suc 0))))" by simp
  show ?thesis
    unfolding search_states_def five
    by (simp add: chain_init chain_round1 chain_round2 chain_counts Let_def)
qed

lemma pair_init: "init_table pair_table = pair_s0"
  by (simp add: init_pair_table pair_s0_def chain_row_def)

lemma pair_round1: "iteration 20000 10 pair_s0 = pair_s1"
  unfolding pair_s0_def pair_s1_def
  by (simp add: eval_defs upt2)

lemma pair_round2: "iteration 20000 10 pair_s1 = pair_s1"
  unfolding pair_s1_def
  by (simp add: eval_defs upt2)

lemma pair_counts:
  "inlier_count pair_s0 = 2" "inlier_count pair_s1 = 0"
  "length (pool_df pair_s0) = 2" "length (pool_df pair_s1) = 2"
  by (simp_all add: inlier_count_def pool_df_length pair_s0_def pair_s1_def upt2)

lemma pair_states: "search_states pair_table 20 10 3 = [pair_s0, pair_s1, pair_s1]"
proof -
  have three: "(3::nat) = Suc (Suc (Suc 0))" by simp
  show ?thesis
    unfolding search_states_def three
    by (simp add: pair_init pair_round1 pair_round2 pair_counts Let_def)
qed

lemma pair_payloads:
  "map (\<lambda>p. length (pX p)) (snd (outlier_search pair_table 20 10 3)) = [2, 2, 2]"
proof -
  have three: "(3::nat) = Suc (Suc (Suc 0))" by simp
  have q: "length (pX (quiver_payload (pool_df s))) = length (pool_df s)" for s
    by (simp add: quiver_payload_def)
  show ?thesis
    unfolding outlier_search_def three
    by (simp add: pair_init pair_round1 pair_round2 pair_counts Let_def q)
qed

lemma filter_length_eq_imp:
  "(\<And>x. x \<in> set xs \<Longrightarrow> P x \<Longrightarrow> Q x) \<Longrightarrow> length (filter P xs) = length (filter Q xs)
     \<Longrightarrow> x \<in> set xs \<Longrightarrow> Q x \<Longrightarrow> P x"
proof (induction xs)
  case Nil
  then show ?case by simp
next
  case (Cons a xs)
  have le: "length (filter P xs) \<le> length (filter Q xs)"
    by (rule length_filter_le_imp) (use Cons.prems(1) in auto)
  show ?case
  proof (cases "x = a")
    case True
    with Cons.prems le show ?thesis by (auto split: if_splits)
  next
    case False
    have "length (filter P xs) = length (filter Q xs)"
      using Cons.prems(1,2) le by (auto split: if_splits)
    with Cons False show ?thesis by auto
  qed
qed

lemma write_point_cong:
  assumes len: "length s' = length s"
    and eq: "\<And>j. j < length s \<Longrightarrow>
        in_pool (s' ! j) = in_pool (s ! j) \<and> scene (s' ! j) = scene (s ! j) \<and>
        pos (s' ! j) = pos (s ! j) \<and> total_distance_km (s' ! j) = total_distance_km (s ! j) \<and>
        bearing_rad (s' ! j) = bearing_rad (s ! j)"
    and i: "i < length s"
  shows "write_point R s' i r = write_point R s i r"
proof -
  have nb: "neighbors_spec R s' i = neighbors_spec R s i"
    unfolding neighbors_spec_def len
    by (rule filter_cong) (use eq i in auto)
  have sub: "\<And>j. j \<in> set (neighbors_spec R s i) \<Longrightarrow> j < length s"
    by (simp add: neighbors_spec_set)
  have d: "map (\<lambda>j. total_distance_km (s' ! j)) (neighbors_spec R s i)
           = map (\<lambda>j. total_distance_km (s ! j)) (neighbors_spec R s i)"
    by (rule map_cong) (use eq sub in auto)
  have b: "map (\<lambda>j. bearing_rad (s' ! j)) (neighbors_spec R s i)
           = map (\<lambda>j. bearing_rad (s ! j)) (neighbors_spec R s i)"
    by (rule map_cong) (use eq sub in auto)
  have dz: "dist_z s' i (neighbors_spec R s i) = dist_z s i (neighbors_spec R s i)"
    using eq[OF i] by (simp add: dist_z_def d Let_def)
  have bz: "bear_z s' i (neighbors_spec R s i) = bear_z s i (neighbors_spec R s i)"
    using eq[OF i] by (simp add: bear_z_def b Let_def)
  show ?thesis
    by (simp add: write_point_def nb dz bz Let_def)
qed

lemma write_point_again:
  "write_point R s i (categorize m (write_point R s i r)) = categorize m (write_point R s i r)"
  by (simp add: write_point_def categorize_def Let_def base_cat_def statistical_confidence_flag_def)

text \<open>
  Had the loop compared pool sizes, its stop would be at a fixed point: once a round
  leaves the size of the pool unchanged, a further round changes nothing.
\<close>

lemma pool_stable_fixed_point:
  assumes inv: "\<And>i. i < length s \<Longrightarrow> in_pool (s ! i) \<or> consistent m (s ! i)"
    and stable: "length (pool_df (iteration R m s)) = length (pool_df s)"
  shows "iteration R m (iteration R m s) = iteration R m s"
proof (rule nth_equalityI)
  show "length (iteration R m (iteration R m s)) = length (iteration R m s)" by simp
next
  fix i assume "i < length (iteration R m (iteration R m s))"
  then have i: "i < length s" by simp
  let ?s1 = "iteration R m s"
  have fr: "\<And>j. j < length s \<Longrightarrow> in_pool (?s1 ! j) \<Longrightarrow> in_pool (s ! j)"
    using round_mono(2)[where s=s and m=m and R=R] inv by metis
  have pool_kept: "in_pool (?s1 ! j)" if "j < length s" "in_pool (s ! j)" for j
  proof (rule filter_length_eq_imp[where xs = "[0..<length s]" and P = "\<lambda>j. in_pool (?s1 ! j)"
        and Q = "\<lambda>j. in_pool (s ! j)"])
    show "\<And>x. x \<in> set [0..<length s] \<Longrightarrow> in_pool (?s1 ! x) \<Longrightarrow> in_pool (s ! x)"
      using fr by simp
    show "length (filter (\<lambda>j. in_pool (?s1 ! j)) [0..<length s])
          = length (filter (\<lambda>j. in_pool (s ! j)) [0..<length s])"
      using stable by (simp add: pool_df_length)
    show "j \<in> set [0..<length s]" using that by simp
    show "in_pool (s ! j)" using that by simp
  qed
  have same: "write_point R ?s1 i r = write_point R s i r" for r
    by (rule write_point_cong) (use fr pool_kept i in \<open>auto simp: iteration_frame\<close>)
  show "iteration R m ?s1 ! i = ?s1 ! i"
  proof (cases "in_pool (?s1 ! i)")
    case True
    then have p: "in_pool (s ! i)" using fr i by blast
    have s1: "?s1 ! i = categorize m (write_point R s i (s ! i))"
      using i p by (simp add: iteration_nth)
    have "iteration R m ?s1 ! i = categorize m (write_point R ?s1 i (?s1 ! i))"
      using i True by (simp add: iteration_nth)
    also have "\<dots> = categorize m (?s1 ! i)"
      by (simp add: same s1 write_point_again)
    also have "\<dots> = ?s1 ! i"
      by (rule categorize_id) (use i in \<open>simp add: iteration_consistent\<close>)
    finally show ?thesis .
  next
    case False
    then show ?thesis
      using i by (simp add: iteration_frozen iteration_consistent)
  qed
qed

lemma sin_lower:
  fixes y b :: real
  assumes "0 \<le> y" "y\<^sup>2 \<le> b"
  shows "(1 - b / 6) * y \<le> sin y"
proof -
  have "\<bar>sin y - (\<Sum>m<3. sin_coeff m * y ^ m)\<bar> \<le> inverse (fact 3) * \<bar>y\<bar> ^ 3"
    by (rule Maclaurin_sin_bound)
  moreover have "(\<Sum>m<3. sin_coeff m * y ^ m) = y"
    by (simp add: sin_coeff_def eval_nat_numeral)
  ultimately have e: "\<bar>sin y - y\<bar> \<le> \<bar>y\<bar> ^ 3 / 6"
    by (simp add: fact_numeral)
  have "\<bar>y\<bar> ^ 3 = y ^ 3" using assms(1) by simp
  with e have "y - y ^ 3 / 6 \<le> sin y" by linarith
  moreover have "y ^ 3 = y * y\<^sup>2" by (simp add: power3_eq_cube power2_eq_square)
  moreover have "y * y\<^sup>2 \<le> y * b" using assms by (rule mult_left_mono[rotated])
  ultimately show ?thesis by (simp add: algebra_simps)
qed

lemma cos_lower:
  fixes y b :: real
  assumes "y\<^sup>2 \<le> b"
  shows "1 - b / 2 \<le> cos y"
proof -
  have "cos y = 1 - 2 * (sin (y / 2))\<^sup>2"
    using cos_double_sin[of "y / 2"] by simp
  moreover have "(sin (y / 2))\<^sup>2 \<le> (y / 2)\<^sup>2"
    using abs_sin_x_le_abs_x[of "y / 2"] by (metis abs_le_square_iff)
  ultimately show ?thesis using assms by (simp add: power_divide)
qed

lemma wrap_mean_bounds:
  fixes x :: real
  assumes x0: "0 < x" and x1: "x < 1 / 45"
  shows "66 / 100 * x < arctan (sin (2 * x) / (2 * cos x + cos (2 * x)))"
    and "arctan (sin (2 * x) / (2 * cos x + cos (2 * x))) < 68 / 100 * x"
proof -
  let ?t = "sin (2 * x) / (2 * cos x + cos (2 * x))"
  have pi2: "1 / 45 < pi / 2" using pi_ge_two by simp
  have x2: "x\<^sup>2 \<le> 1 / 2025"
  proof -
    have "x * x \<le> (1 / 45) * (1 / 45)"
      by (rule mult_mono) (use x0 x1 in simp_all)
    then show ?thesis by (simp add: power2_eq_square)
  qed
  have c1: "1 - (1 / 2025) / 2 \<le> cos x" using x2 by (rule cos_lower)
  have y2: "(2 * x)\<^sup>2 \<le> 4 / 2025" using x2 by (simp add: power_mult_distrib)
  have c2: "1 - (4 / 2025) / 2 \<le> cos (2 * x)" using y2 by (rule cos_lower)
  have s2: "(1 - (4 / 2025) / 6) * (2 * x) \<le> sin (2 * x)"
    by (rule sin_lower[OF _ y2]) (use x0 in simp)
  have s2u: "sin (2 * x) \<le> 2 * x" using x0 by (simp add: sin_x_le_x)
  have den_lo: "3 - 1 / 675 \<le> 2 * cos x + cos (2 * x)" using c1 c2 by simp
  have den_hi: "2 * cos x + cos (2 * x) \<le> 3"
    using cos_le_one[of x] cos_le_one[of "2 * x"] by linarith
  have t_hi: "?t \<le> 2 * x / (3 - 1 / 675)"
    by (rule frac_le) (use s2u den_lo x0 in simp_all)
  have t_lo: "(1 - (4 / 2025) / 6) * (2 * x) / 3 \<le> ?t"
    by (rule frac_le) (use s2 den_hi den_lo x0 in simp_all)
  let ?u = "68 / 100 * x"
  have u0: "0 \<le> ?u" "?u < pi / 2" using x0 x1 pi2 by simp_all
  have "?u\<^sup>2 \<le> 6 / 10000"
  proof -
    have "?u\<^sup>2 = (68 / 100)\<^sup>2 * x\<^sup>2" by (rule power_mult_distrib)
    also have "\<dots> \<le> (68 / 100)\<^sup>2 * (1 / 2025)" using x2 by (rule mult_left_mono) simp
    also have "\<dots> \<le> 6 / 10000" by (simp add: power2_eq_square)
    finally show ?thesis .
  qed
  then have su: "(1 - (6 / 10000) / 6) * ?u \<le> sin ?u" by (rule sin_lower[OF u0(1)])
  have cu: "0 < cos ?u" "cos ?u \<le> 1"
    using u0 by (simp_all add: cos_gt_zero_pi)
  have su0: "0 \<le> sin ?u" using u0 by (intro sin_ge_zero) (use pi_gt_zero in linarith)+
  have "sin ?u / 1 \<le> sin ?u / cos ?u"
    by (rule frac_le) (use cu su0 in simp_all)
  then have tan_u: "sin ?u \<le> tan ?u" by (simp add: tan_def)
  have "2 * x / (3 - 1 / 675) < (1 - (6 / 10000) / 6) * ?u" using x0 by (simp add: field_simps)
  with t_hi su tan_u have "?t < tan ?u" by linarith
  then have "arctan ?t < arctan (tan ?u)" by (simp add: arctan_less_iff)
  moreover have "arctan (tan ?u) = ?u" by (rule arctan_tan) (use u0 x0 in simp_all)
  ultimately show "arctan ?t < 68 / 100 * x" by simp
  let ?l = "66 / 100 * x"
  have l0: "0 \<le> ?l" "?l < pi / 2" using x0 x1 pi2 by simp_all
  have "?l\<^sup>2 \<le> 4 / 10000"
  proof -
    have "?l\<^sup>2 = (66 / 100)\<^sup>2 * x\<^sup>2" by (rule power_mult_distrib)
    also have "\<dots> \<le> (66 / 100)\<^sup>2 * (1 / 2025)" using x2 by (rule mult_left_mono) simp
    also have "\<dots> \<le> 4 / 10000" by (simp add: power2_eq_square)
    finally show ?thesis .
  qed
  then have cl: "1 - (4 / 10000) / 2 \<le> cos ?l" by (rule cos_lower)
  have sl: "sin ?l \<le> ?l" using l0(1) by (rule sin_x_le_x)
  have "sin ?l / cos ?l \<le> ?l / (1 - (4 / 10000) / 2)"
    by (rule frac_le) (use sl cl l0 in simp_all)
  then have tan_l: "tan ?l \<le> ?l / (1 - (4 / 10000) / 2)" by (simp add: tan_def)
  have "?l / (1 - (4 / 10000) / 2) < (1 - (4 / 2025) / 6) * (2 * x) / 3"
    using x0 by (simp add: field_simps)
  with t_lo tan_l have "tan ?l < ?t" by linarith
  then have "arctan (tan ?l) < arctan ?t" by (simp add: arctan_less_iff)
  moreover have "arctan (tan ?l) = ?l" by (rule arctan_tan) (use l0 x0 in simp_all)
  ultimately show "66 / 100 * x < arctan ?t" by simp
qed

lemma nanmean_replicate_NaN [simp]: "nanmean (replicate n NaN) = NaN"
proof -
  have "finite_vals (replicate n NaN) = []" by (induction n) simp_all
  then show ?thesis by (simp add: nanmean_def)
qed

lemma circular_mean_all_NaN: "circular_mean (replicate n NaN) = NaN"
  by (simp add: circular_mean_def np_sin_def np_cos_def np_arctan2_def)

lemma wrap_den_pos:
  fixes x :: real
  assumes x0: "0 < x" and x1: "x < 1 / 45"
  shows "0 < 2 * cos x + cos (2 * x)"
proof -
  have x2: "x\<^sup>2 \<le> 1 / 2025"
  proof -
    have "x * x \<le> (1 / 45) * (1 / 45)"
      by (rule mult_mono) (use x0 x1 in simp_all)
    then show ?thesis by (simp add: power2_eq_square)
  qed
  have c1: "1 - (1 / 2025) / 2 \<le> cos x" using x2 by (rule cos_lower)
  have y2: "(2 * x)\<^sup>2 \<le> 4 / 2025" using x2 by (simp add: power_mult_distrib)
  have c2: "1 - (4 / 2025) / 2 \<le> cos (2 * x)" using y2 by (rule cos_lower)
  show ?thesis using c1 c2 by simp
qed

lemma wrap_mean_general:
  fixes x :: real
  assumes x0: "0 < x" and x1: "x < 1 / 45"
  shows "circular_mean [Fin x, Fin (2 * pi - x), Fin (2 * x)]
         = Fin (arctan (sin (2 * x) / (2 * cos x + cos (2 * x))))"
proof -
  have "0 < 2 * cos x + cos (2 * x)" using x0 x1 by (rule wrap_den_pos)
  then have pos: "0 < (cos x + cos x + cos (2 * x)) / 3" by simp
  have s: "nanmean (map np_sin [Fin x, Fin (2 * pi - x), Fin (2 * x)]) = Fin (sin (2 * x) / 3)"
    by (simp add: nanmean_def mean_def np_sin_def)
  have c: "nanmean (map np_cos [Fin x, Fin (2 * pi - x), Fin (2 * x)])
           = Fin ((cos x + cos x + cos (2 * x)) / 3)"
    by (simp add: nanmean_def mean_def np_cos_def)
  have "atan2 (sin (2 * x) / 3) ((cos x + cos x + cos (2 * x)) / 3)
        = arctan (sin (2 * x) / (2 * cos x + cos (2 * x)))"
    using pos by (simp add: atan2_def)
  then show ?thesis
    unfolding circular_mean_def s c by (simp add: np_arctan2_def)
qed

lemma wrap_mean_value:
  "circular_mean (map deg2rad [Fin 1, Fin 359, Fin 2])
   = Fin (arctan (sin (2 * (pi / 180)) / (2 * cos (pi / 180) + cos (2 * (pi / 180)))))"
proof -
  have x: "0 < pi / 180" "pi / 180 < 1 / 45" using pi_less_4 by simp_all
  have "map deg2rad [Fin 1, Fin 359, Fin 2]
        = [Fin (pi / 180), Fin (2 * pi - pi / 180), Fin (2 * (pi / 180))]"
    by (simp add: deg2rad_def)
  then show ?thesis by (simp only: wrap_mean_general[OF x])
qed

lemma add_columns_derived [simp]:
  "b_sin (add_columns d g) = np_sin (deg2rad (Bear_deg d))"
  "b_cos (add_columns d g) = np_cos (deg2rad (Bear_deg d))"
  by (simp_all add: add_columns_def drift.defs obs.defs)

lemma write_point_derived [simp]:
  "b_sin (write_point R s i r) = b_sin r" "b_cos (write_point R s i r) = b_cos r"
  by (simp_all add: write_point_def Let_def)

lemma categorize_derived [simp]:
  "b_sin (categorize m r) = b_sin r" "b_cos (categorize m r) = b_cos r"
  by (simp_all add: categorize_def)

lemma init_table_nth_eq:
  assumes "i < length df"
  shows "init_table df ! i
         = add_columns (sort_key scene_key df ! i)
             (ngroup (map scene_key (sort_key scene_key df)) ! i + 1)"
  using assms by (simp add: init_table_def Let_def ngroup_def)

lemma init_table_truncate: "map drift.truncate (init_table df) = sort_key scene_key df"
  by (rule nth_equalityI) (simp_all add: init_table_nth_eq)

lemma iteration_map_frame:
  "map drift.truncate (iteration R m s) = map drift.truncate s"
  "map bearing_rad (iteration R m s) = map bearing_rad s"
  "map b_sin (iteration R m s) = map b_sin s"
  "map b_cos (iteration R m s) = map b_cos s"
  "map scene (iteration R m s) = map scene s"
  by (rule nth_equalityI; simp add: iteration_nth)+

lemma search_states_frame:
  assumes "k < length (search_states df radius_km m n)"
  shows "map drift.truncate (search_states df radius_km m n ! k) = sort_key scene_key df \<and>
         map bearing_rad (search_states df radius_km m n ! k)
           = map (\<lambda>d. deg2rad (Bear_deg d)) (sort_key scene_key df) \<and>
         map b_sin (search_states df radius_km m n ! k)
           = map (\<lambda>d. np_sin (deg2rad (Bear_deg d))) (sort_key scene_key df) \<and>
         map b_cos (search_states df radius_km m n ! k)
           = map (\<lambda>d. np_cos (deg2rad (Bear_deg d))) (sort_key scene_key df) \<and>
         map scene (search_states df radius_km m n ! k)
           = map Suc (ngroup (map scene_key (sort_key scene_key df)))"
proof (rule search_states_induct[OF assms])
  show "map drift.truncate (init_table df) = sort_key scene_key df \<and>
         map bearing_rad (init_table df) = map (\<lambda>d. deg2rad (Bear_deg d)) (sort_key scene_key df) \<and>
         map b_sin (init_table df) = map (\<lambda>d. np_sin (deg2rad (Bear_deg d))) (sort_key scene_key df) \<and>
         map b_cos (init_table df) = map (\<lambda>d. np_cos (deg2rad (Bear_deg d))) (sort_key scene_key df) \<and>
         map scene (init_table df) = map Suc (ngroup (map scene_key (sort_key scene_key df)))"
    by (intro conjI; rule nth_equalityI; simp add: init_table_nth_eq ngroup_def)
qed (simp add: iteration_map_frame)

lemma outlier_search_frame:
  "map drift.truncate (fst (outlier_search df radius_km m n)) = sort_key scene_key df \<and>
   map bearing_rad (fst (outlier_search df radius_km m n))
     = map (\<lambda>d. deg2rad (Bear_deg d)) (sort_key scene_key df) \<and>
   map b_sin (fst (outlier_search df radius_km m n))
     = map (\<lambda>d. np_sin (deg2rad (Bear_deg d))) (sort_key scene_key df) \<and>
   map b_cos (fst (outlier_search df radius_km m n))
     = map (\<lambda>d. np_cos (deg2rad (Bear_deg d))) (sort_key scene_key df) \<and>
   map scene (fst (outlier_search df radius_km m n))
     = map Suc (ngroup (map scene_key (sort_key scene_key df)))"
proof -
  let ?ss = "search_states df radius_km m n"
  have ne: "?ss \<noteq> []" by (simp add: search_states_def)
  then have "length ?ss - 1 < length ?ss" by (cases ?ss) simp_all
  from search_states_frame[OF this] show ?thesis
    by (simp add: outlier_search_last last_conv_nth[OF ne])
qed

lemma finite_vals_replicate [simp]: "finite_vals (replicate k (Fin v)) = replicate k v"
  by (induction k) simp_all

lemma mean_replicate [simp]: "mean (replicate (Suc k) v) = v"
  by (simp add: mean_def sum_list_replicate del: replicate.simps)

text \<open>
  Over the reals, equal angles give a mean resultant length of exactly 1 and a circular
  standard deviation of exactly 0. This says nothing about the rounded sine, cosine,
  square root and logarithm of float64 arithmetic.
\<close>

lemma circular_std_identical_reals: "circular_std (replicate (Suc k) (Fin a)) = Fin 0"
proof -
  have s: "nanmean (map np_sin (replicate (Suc k) (Fin a))) = Fin (sin a)"
    by (simp add: nanmean_def np_sin_def del: replicate.simps)
  have c: "nanmean (map np_cos (replicate (Suc k) (Fin a))) = Fin (cos a)"
    by (simp add: nanmean_def np_cos_def del: replicate.simps)
  have one: "sin a * sin a + cos a * cos a = 1"
    using sin_cos_squared_add[of a] by (simp add: power2_eq_square)
  show ?thesis
    unfolding circular_std_def s c
    by (simp add: fl_mul_def fl_add_def np_clip_def Let_def one)
qed

lemma run_pool_stable_fixed_point:
  assumes "Suc k < length (search_states df radius_km m n)"
    and "length (pool_df (search_states df radius_km m n ! Suc k))
         = length (pool_df (search_states df radius_km m n ! k))"
  shows "iteration (radius_km * 1000) m (search_states df radius_km m n ! Suc k)
         = search_states df radius_km m n ! Suc k"
proof -
  have "run_inv (radius_km * 1000) m (search_states df radius_km m n ! k)"
    by (rule run_inv_states) (use assms(1) in simp)
  then have inv: "\<And>i. i < length (search_states df radius_km m n ! k) \<Longrightarrow>
      in_pool (search_states df radius_km m n ! k ! i) \<or>
      consistent m (search_states df radius_km m n ! k ! i)"
    by (simp add: run_inv_def)
  show ?thesis
    using pool_stable_fixed_point[OF inv, of "radius_km * 1000"] assms
    by (simp add: search_states_step)
qed

text \<open>With a previous count equal to the present one the loop stops before any recomputation.\<close>

lemma outlier_loop_break:
  "inlier_count s = c \<Longrightarrow>
     outlier_loop (Suc n) R m (Some c) s ps = (s, ps @ [quiver_payload (pool_df s)])"
  by simp

lemma index_of_inj:
  "a \<in> set xs \<Longrightarrow> b \<in> set xs \<Longrightarrow> index_of a xs = index_of b xs \<Longrightarrow> a = b"
  by (induction xs) (auto split: if_splits)

text \<open>Two rows have the same scene number exactly when their identifier pairs are equal.\<close>

lemma scene_eq_iff_key:
  assumes "i < length df" "j < length df"
  shows "scene (init_table df ! i) = scene (init_table df ! j)
         \<longleftrightarrow> scene_key (sort_key scene_key df ! i) = scene_key (sort_key scene_key df ! j)"
proof -
  let ?ks = "map scene_key (sort_key scene_key df)"
  have m: "?ks ! i \<in> set (uniq ?ks)" "?ks ! j \<in> set (uniq ?ks)"
    using assms nth_mem[of i ?ks] nth_mem[of j ?ks] by simp_all
  have "scene (init_table df ! i) = scene (init_table df ! j)
        \<longleftrightarrow> index_of (?ks ! i) (uniq ?ks) = index_of (?ks ! j) (uniq ?ks)"
    using assms by (simp add: init_table_nth_eq ngroup_def)
  also have "\<dots> \<longleftrightarrow> ?ks ! i = ?ks ! j"
    using index_of_inj[OF m] by auto
  finally show ?thesis using assms by simp
qed

section \<open>Properties of the outlier search\<close>

text \<open>
  C1. The count the loop compares is the number of rows with category \<open>01\<close>, not the
  size of the pool, which also holds the rows with category \<open>00\<close>. On two vectors of one
  scene, 5 km apart, with \<open>radius_km = 20\<close>, \<open>min_neighbors = 10\<close> and
  \<open>iter_count = 3\<close>: at the head of the second round the count is 0 while the pool has
  2 rows, as many as at the head of the first round; the loop does not stop there, it
  appends a third plot record and the third table is the result of a further round.
\<close>

theorem C1_inlier_count_is_not_pool_size:
  "inlier_count (search_states pair_table 20 10 3 ! 1) = 0 \<and>
   length (pool_df (search_states pair_table 20 10 3 ! 1)) = 2 \<and>
   length (pool_df (search_states pair_table 20 10 3 ! 0)) = 2 \<and>
   map (\<lambda>p. length (pX p)) (snd (outlier_search pair_table 20 10 3)) = [2, 2, 2] \<and>
   search_states pair_table 20 10 3 ! 2
     = iteration (20 * 1000) 10 (search_states pair_table 20 10 3 ! 1)"
  by (simp add: pair_states pair_counts pair_payloads pair_round2)

text \<open>
  C2. Along the tables of a run, from any round to any later one: the inlier count the
  loop computes (rows with category \<open>01\<close>) does not increase, the size of the pool (rows
  with category \<open>00\<close> or \<open>01\<close>) does not increase, and a row whose category is not a
  reason-0 category keeps that category, so it never comes back into the pool.
\<close>

theorem C2_monotonicity:
  assumes "k \<le> k'"
    and "k' < length (search_states df radius_km min_neighbors iter_count)"
  shows "inlier_count (search_states df radius_km min_neighbors iter_count ! k')
           \<le> inlier_count (search_states df radius_km min_neighbors iter_count ! k) \<and>
         length (pool_df (search_states df radius_km min_neighbors iter_count ! k'))
           \<le> length (pool_df (search_states df radius_km min_neighbors iter_count ! k)) \<and>
         (\<forall>i<length df.
            \<not> in_pool (search_states df radius_km min_neighbors iter_count ! k ! i) \<longrightarrow>
            \<not> in_pool (search_states df radius_km min_neighbors iter_count ! k' ! i) \<and>
            outlier_category (search_states df radius_km min_neighbors iter_count ! k' ! i)
              = outlier_category (search_states df radius_km min_neighbors iter_count ! k ! i))"
  using assms
proof (induction k' rule: dec_induct)
  case base
  then show ?case by simp
next
  case (step j)
  let ?ss = "search_states df radius_km min_neighbors iter_count"
  have j: "j < length ?ss" and sj: "Suc j < length ?ss" using step.prems by simp_all
  have inv: "run_inv (radius_km * 1000) min_neighbors (?ss ! j)"
    using j by (rule run_inv_states)
  have st: "?ss ! Suc j = iteration (radius_km * 1000) min_neighbors (?ss ! j)"
    using sj by (rule search_states_step)
  have len: "length (?ss ! j) = length df"
    using j by (rule search_states_length)
  note IH = step.IH[OF j]
  have a: "inlier_count (?ss ! Suc j) \<le> inlier_count (?ss ! k)"
    using run_inv_round(1)[OF inv] IH by (simp add: st)
  have b: "length (pool_df (?ss ! Suc j)) \<le> length (pool_df (?ss ! k))"
    using run_inv_round(2)[OF inv] IH by (simp add: st)
  have c: "\<not> in_pool (?ss ! Suc j ! i) \<and> outlier_category (?ss ! Suc j ! i) = outlier_category (?ss ! k ! i)"
    if "i < length df" "\<not> in_pool (?ss ! k ! i)" for i
  proof -
    from IH that have n: "\<not> in_pool (?ss ! j ! i)"
      and e: "outlier_category (?ss ! j ! i) = outlier_category (?ss ! k ! i)" by blast+
    have "?ss ! Suc j ! i = ?ss ! j ! i"
      unfolding st using run_inv_round(3)[OF inv, of i] that(1) n len by simp
    with n e show ?thesis by simp
  qed
  from a b c show ?case by blast
qed

theorem C2_monotonicity_witness:
  "Suc 0 \<le> 2 \<and> 2 < length (search_states chain_table 1 10 5) \<and>
   inlier_count (search_states chain_table 1 10 5 ! 2)
     \<le> inlier_count (search_states chain_table 1 10 5 ! Suc 0) \<and>
   length (pool_df (search_states chain_table 1 10 5 ! 2))
     \<le> length (pool_df (search_states chain_table 1 10 5 ! Suc 0)) \<and>
   1 < length chain_table \<and>
   \<not> in_pool (search_states chain_table 1 10 5 ! Suc 0 ! 1) \<and>
   \<not> in_pool (search_states chain_table 1 10 5 ! 2 ! 1) \<and>
   outlier_category (search_states chain_table 1 10 5 ! 2 ! 1) = ''10''"
proof -
  have h1: "Suc 0 \<le> (2::nat)" by simp
  have h2: "2 < length (search_states chain_table 1 10 5)" by (simp add: chain_states)
  have h3: "1 < length chain_table" by (simp add: chain_table_def)
  have h4: "\<not> in_pool (search_states chain_table 1 10 5 ! Suc 0 ! 1)"
    by (simp add: chain_states chain_s1_def)
  have h5: "outlier_category (search_states chain_table 1 10 5 ! Suc 0 ! 1) = ''10''"
    by (simp add: chain_states chain_s1_def)
  show ?thesis
    using h1 h2 h3 h4 h5 C2_monotonicity[OF h1 h2] by auto
qed

text \<open>
  C3. On the seven vectors of \<open>chain_table\<close> with \<open>radius_km = 1\<close>,
  \<open>min_neighbors = 10\<close> and \<open>iter_count = 5\<close> the loop stops at the head of its third
  round, the count of rows with category \<open>01\<close> being 0 as in the round before, and
  returns the table of that moment. One more round on the returned table changes the
  category of row 4 from \<open>00\<close> to \<open>10\<close>.
\<close>

theorem C3_stop_is_not_a_fixed_point:
  "length (search_states chain_table 1 10 5) = 3 \<and>
   fst (outlier_search chain_table 1 10 5) = search_states chain_table 1 10 5 ! 2 \<and>
   inlier_count (search_states chain_table 1 10 5 ! 2)
     = inlier_count (search_states chain_table 1 10 5 ! 1) \<and>
   outlier_category (fst (outlier_search chain_table 1 10 5) ! 4) = ''00'' \<and>
   outlier_category (iteration (1 * 1000) 10 (fst (outlier_search chain_table 1 10 5)) ! 4) = ''10''"
proof -
  have "fst (outlier_search chain_table 1 10 5) = chain_s2"
    by (simp add: outlier_search_last chain_states)
  then show ?thesis
    by (simp add: chain_states chain_counts chain_round3) (simp add: chain_s2_def chain_s3_def)
qed

text \<open>
  C4. After a round of the loop, the category of every row, in the pool or not, is the
  digit of its reason followed by the digit of its confidence. The distance flag is
  \<open>distance_z_score > 3\<close> and the bearing flag \<open>bearing_z_score > 3\<close>, both read from
  the row and false on not-a-number; the reason is 3 for both flags, 1 for distance only,
  2 for bearing only, 0 otherwise; the confidence is 1 when \<open>neighbor_count\<close> is at least
  \<open>min_neighbors\<close> and 0 otherwise.
\<close>

theorem C4_classifier_postcondition:
  assumes "Suc k < length (search_states df radius_km min_neighbors iter_count)"
    and "i < length df"
  shows "outlier_category (search_states df radius_km min_neighbors iter_count ! Suc k ! i)
         = str_digit (reason_spec (search_states df radius_km min_neighbors iter_count ! Suc k ! i))
           @ str_digit (confidence_spec min_neighbors
               (search_states df radius_km min_neighbors iter_count ! Suc k ! i))"
proof -
  have "length (search_states df radius_km min_neighbors iter_count ! k) = length df"
    using assms(1) by (simp add: search_states_length)
  then show ?thesis
    using assms by (simp add: search_states_step iteration_category)
qed

theorem C4_classifier_postcondition_witness:
  "Suc 0 < length (search_states pair_table 20 10 1) \<and> 0 < length pair_table \<and>
   outlier_category (search_states pair_table 20 10 1 ! Suc 0 ! 0) = ''00''"
proof -
  have h1: "Suc 0 < length (search_states pair_table 20 10 1)"
    using search_states_Suc_length[of pair_table 20 10 0] by simp
  have h2: "0 < length pair_table" by (simp add: pair_table_def)
  show ?thesis
    using h1 h2 C4_classifier_postcondition[OF h1 h2] pair_round1_scores
    by (simp add: reason_spec_def distance_flag_def bearing_flag_def confidence_spec_def
        str_digit_def)
qed

text \<open>
  C5. In a round of the loop, the neighbour list recorded for a row of the pool holds,
  without repetition, exactly the other rows of the pool of that round that have the same
  scene and whose start position \<open>(X1, Y1)\<close> lies within \<open>radius_km * 1000\<close> of the
  row's own, the bound included. The list depends on the pool of the round only, not on
  what was recorded before.
\<close>

theorem C5_neighbor_search:
  assumes "Suc k < length (search_states df radius_km min_neighbors iter_count)"
    and "i < length df"
    and "in_pool (search_states df radius_km min_neighbors iter_count ! k ! i)"
  shows "distinct (nb_list (search_states df radius_km min_neighbors iter_count ! Suc k ! i)) \<and>
         set (nb_list (search_states df radius_km min_neighbors iter_count ! Suc k ! i))
         = {j. j < length df \<and> j \<noteq> i \<and>
               in_pool (search_states df radius_km min_neighbors iter_count ! k ! j) \<and>
               scene (search_states df radius_km min_neighbors iter_count ! k ! j)
                 = scene (search_states df radius_km min_neighbors iter_count ! k ! i) \<and>
               euclid (X1 (search_states df radius_km min_neighbors iter_count ! k ! j),
                       Y1 (search_states df radius_km min_neighbors iter_count ! k ! j))
                      (X1 (search_states df radius_km min_neighbors iter_count ! k ! i),
                       Y1 (search_states df radius_km min_neighbors iter_count ! k ! i))
                 \<le> radius_km * 1000}"
proof -
  let ?ss = "search_states df radius_km min_neighbors iter_count"
  have len: "length (?ss ! k) = length df"
    using assms(1) by (simp add: search_states_length)
  have "nb_list (?ss ! Suc k ! i) = neighbors_spec (radius_km * 1000) (?ss ! k) i"
    using assms len by (simp add: search_states_step iteration_nb_list)
  then show ?thesis
    by (simp add: neighbors_spec_set len)
qed

theorem C5_neighbor_search_witness:
  "Suc 0 < length (search_states pair_table 20 10 1) \<and> 0 < length pair_table \<and>
   in_pool (search_states pair_table 20 10 1 ! 0 ! 0) \<and>
   set (nb_list (search_states pair_table 20 10 1 ! Suc 0 ! 0)) = {1}"
proof -
  have h1: "Suc 0 < length (search_states pair_table 20 10 1)"
    using search_states_length_one[of pair_table 20 10] by simp
  have h2: "0 < length pair_table" by simp
  have h3: "in_pool (search_states pair_table 20 10 1 ! 0 ! 0)"
    by (simp add: init_pair_table)
  have "{j. j < length pair_table \<and> j \<noteq> 0 \<and>
               in_pool (search_states pair_table 20 10 1 ! 0 ! j) \<and>
               scene (search_states pair_table 20 10 1 ! 0 ! j)
                 = scene (search_states pair_table 20 10 1 ! 0 ! 0) \<and>
               euclid (X1 (search_states pair_table 20 10 1 ! 0 ! j),
                       Y1 (search_states pair_table 20 10 1 ! 0 ! j))
                      (X1 (search_states pair_table 20 10 1 ! 0 ! 0),
                       Y1 (search_states pair_table 20 10 1 ! 0 ! 0))
                 \<le> 20 * 1000} = {1}"
    by (auto simp: init_pair_table euclid_le_iff less_2_cases_iff)
  then show ?thesis
    using h1 h2 h3 C5_neighbor_search[OF h1 h2 h3] by simp
qed

text \<open>
  C6, as the code has it. The returned table is the input stably sorted by
  \<open>(File1, File2)\<close>: the input columns of its rows, in order, are the rows of the sorted
  input, each unchanged. The added columns \<open>bearing_rad\<close>, \<open>b_sin\<close>, \<open>b_cos\<close> and
  \<open>scene\<close> hold what they were given before the first round: the bearing in radians, its
  sine and cosine, and one plus the number of the row's \<open>(File1, File2)\<close> group in order
  of first occurrence. Only the category, the neighbour list, the neighbour count and the
  two z-scores change from round to round, each written at the row's index in the sorted
  table.
\<close>

theorem C6_frame_sorted_order:
  "map drift.truncate (fst (outlier_search df radius_km min_neighbors iter_count))
     = sort_key scene_key df \<and>
   map bearing_rad (fst (outlier_search df radius_km min_neighbors iter_count))
     = map (\<lambda>d. deg2rad (Bear_deg d)) (sort_key scene_key df) \<and>
   map b_sin (fst (outlier_search df radius_km min_neighbors iter_count))
     = map (\<lambda>d. np_sin (deg2rad (Bear_deg d))) (sort_key scene_key df) \<and>
   map b_cos (fst (outlier_search df radius_km min_neighbors iter_count))
     = map (\<lambda>d. np_cos (deg2rad (Bear_deg d))) (sort_key scene_key df) \<and>
   map scene (fst (outlier_search df radius_km min_neighbors iter_count))
     = map Suc (ngroup (map scene_key (sort_key scene_key df)))"
  by (rule outlier_search_frame)

text \<open>
  The order of the input is not kept when it is not sorted by \<open>(File1, File2)\<close>: two
  rows given in descending order of \<open>File1\<close> come back swapped.
\<close>

theorem C6_input_order_counterexample:
  "map drift.truncate (fst (outlier_search swap_table 20 10 1)) \<noteq> swap_table"
proof -
  have "sort_key scene_key swap_table = [mk_drift ''a'' ''x'' 0 0 10 0, mk_drift ''b'' ''x'' 0 0 10 0]"
    by (simp add: swap_table_def scene_key_def mk_drift_def)
  then show ?thesis
    using outlier_search_frame[of swap_table 20 10 1]
    by (simp add: swap_table_def mk_drift_def)
qed



text \<open>
  C8. \<open>circular_mean\<close> is the two-argument arctangent of the mean of the sines and the
  mean of the cosines, both taken over the cells that are numbers; on an array of
  not-a-number cells only it is not-a-number; and on the bearings 1, 359 and 2 degrees,
  converted to radians, it is a number within 0.01 degree of 0.67 degree. Numbers are
  reals here, so the last part is the value before any rounding.
\<close>

theorem C8_circular_mean:
  "circular_mean a = np_arctan2 (nanmean (map np_sin a)) (nanmean (map np_cos a)) \<and>
   circular_mean (replicate n NaN) = NaN \<and>
   (\<exists>\<theta>. circular_mean (map deg2rad [Fin 1, Fin 359, Fin 2]) = Fin \<theta> \<and>
        \<bar>\<theta> * 180 / pi - 67 / 100\<bar> < 1 / 100)"
proof -
  let ?x = "pi / 180"
  let ?\<theta> = "arctan (sin (2 * ?x) / (2 * cos ?x + cos (2 * ?x)))"
  have x: "0 < ?x" "?x < 1 / 45" using pi_less_4 by simp_all
  have lo: "66 / 100 * ?x < ?\<theta>" and hi: "?\<theta> < 68 / 100 * ?x"
    using wrap_mean_bounds[OF x] by blast+
  have "66 / 100 < ?\<theta> * 180 / pi" "?\<theta> * 180 / pi < 68 / 100"
    using lo hi by (simp_all add: field_simps)
  then have "\<bar>?\<theta> * 180 / pi - 67 / 100\<bar> < 1 / 100" by linarith
  then show ?thesis
    using wrap_mean_value circular_mean_all_NaN by (simp add: circular_mean_def)
qed

text \<open>
  C10. In every table of the run, before the first round and after each round, every row
  either has no neighbour list and \<open>neighbor_count = 0\<close>, or has a non-empty list of
  distinct indices of other rows of the same scene, not containing its own index, with
  \<open>neighbor_count\<close> equal to the length of the list.
\<close>

theorem C10_neighbor_bookkeeping:
  assumes "k < length (search_states df radius_km min_neighbors iter_count)"
    and "i < length df"
  shows "case neighbor_indices (search_states df radius_km min_neighbors iter_count ! k ! i) of
           None \<Rightarrow> neighbor_count (search_states df radius_km min_neighbors iter_count ! k ! i) = 0
         | Some ns \<Rightarrow> ns \<noteq> [] \<and> distinct ns \<and> i \<notin> set ns \<and>
             (\<forall>j\<in>set ns. j < length df \<and>
                scene (search_states df radius_km min_neighbors iter_count ! k ! j)
                  = scene (search_states df radius_km min_neighbors iter_count ! k ! i)) \<and>
             neighbor_count (search_states df radius_km min_neighbors iter_count ! k ! i)
               = int (length ns)"
proof -
  let ?P = "\<lambda>s::obs list. length s = length df \<and> (\<forall>i<length s.
      (case neighbor_indices (s ! i) of
         None \<Rightarrow> neighbor_count (s ! i) = 0
       | Some ns \<Rightarrow> ns \<noteq> [] \<and> distinct ns \<and> i \<notin> set ns \<and>
           (\<forall>j\<in>set ns. j < length s \<and> scene (s ! j) = scene (s ! i)) \<and>
           neighbor_count (s ! i) = int (length ns)))"
  have "?P (search_states df radius_km min_neighbors iter_count ! k)"
  proof (rule search_states_induct[OF assms(1)])
    show "?P (init_table df)"
    proof (intro conjI allI impI)
      fix i assume "i < length (init_table df)"
      then obtain d g where "init_table df ! i = add_columns d g"
        using init_table_nth[of i df] by auto
      then show "case neighbor_indices (init_table df ! i) of
         None \<Rightarrow> neighbor_count (init_table df ! i) = 0
       | Some ns \<Rightarrow> ns \<noteq> [] \<and> distinct ns \<and> i \<notin> set ns \<and>
           (\<forall>j\<in>set ns. j < length (init_table df) \<and> scene (init_table df ! j) = scene (init_table df ! i)) \<and>
           neighbor_count (init_table df ! i) = int (length ns)"
        by simp
    qed simp
  next
    fix s assume P: "?P s"
    show "?P (iteration (radius_km * 1000) min_neighbors s)"
    proof (intro conjI allI impI)
      show "length (iteration (radius_km * 1000) min_neighbors s) = length df" using P by simp
    next
      fix i assume "i < length (iteration (radius_km * 1000) min_neighbors s)"
      then have i: "i < length s" by simp
      show "case neighbor_indices (iteration (radius_km * 1000) min_neighbors s ! i) of
         None \<Rightarrow> neighbor_count (iteration (radius_km * 1000) min_neighbors s ! i) = 0
       | Some ns \<Rightarrow> ns \<noteq> [] \<and> distinct ns \<and> i \<notin> set ns \<and>
           (\<forall>j\<in>set ns. j < length (iteration (radius_km * 1000) min_neighbors s) \<and>
               scene (iteration (radius_km * 1000) min_neighbors s ! j) = scene (iteration (radius_km * 1000) min_neighbors s ! i)) \<and>
           neighbor_count (iteration (radius_km * 1000) min_neighbors s ! i) = int (length ns)"
        by (rule iteration_bookkeeping[OF _ i]) (use P in blast)
    qed
  qed
  then have len: "length (search_states df radius_km min_neighbors iter_count ! k) = length df"
    and inv: "\<forall>i<length (search_states df radius_km min_neighbors iter_count ! k).
      (case neighbor_indices (search_states df radius_km min_neighbors iter_count ! k ! i) of
         None \<Rightarrow> neighbor_count (search_states df radius_km min_neighbors iter_count ! k ! i) = 0
       | Some ns \<Rightarrow> ns \<noteq> [] \<and> distinct ns \<and> i \<notin> set ns \<and>
           (\<forall>j\<in>set ns. j < length (search_states df radius_km min_neighbors iter_count ! k) \<and>
              scene (search_states df radius_km min_neighbors iter_count ! k ! j)
                = scene (search_states df radius_km min_neighbors iter_count ! k ! i)) \<and>
           neighbor_count (search_states df radius_km min_neighbors iter_count ! k ! i) = int (length ns))"
    by (rule conjunct1, rule conjunct2)
  from inv[rule_format, of i] assms(2) len show ?thesis
    by (cases "neighbor_indices (search_states df radius_km min_neighbors iter_count ! k ! i)")
       simp_all
qed

theorem C10_neighbor_bookkeeping_witness:
  "Suc 0 < length (search_states pair_table 20 10 1) \<and> 0 < length pair_table \<and>
   neighbor_indices (search_states pair_table 20 10 1 ! Suc 0 ! 0) = Some [1] \<and>
   scene (search_states pair_table 20 10 1 ! Suc 0 ! 1)
     = scene (search_states pair_table 20 10 1 ! Suc 0 ! 0) \<and>
   neighbor_count (search_states pair_table 20 10 1 ! Suc 0 ! 0) = 1"
proof -
  have h1: "Suc 0 < length (search_states pair_table 20 10 1)"
    using search_states_length_one[of pair_table 20 10] by simp
  have h2: "0 < length pair_table" by simp
  show ?thesis
    using h1 h2 C10_neighbor_bookkeeping[OF h1 h2] pair_round1_scores by simp
qed

end
